theory Spec2Isabelle
  imports Complex_Main "HOL-Library.AList" "HOL-Library.Log_Nat"
begin

section \<open>Numbers and strings of the host language\<close>

text \<open>
  The wave manager computes with JavaScript numbers, which are IEEE 754 doubles. The
  ledger adds, subtracts, divides and multiplies them, so its numbers are modelled as
  doubles: a finite value is the rational it denotes, and every operation rounds the
  exact result to the nearest double, a tie going to the even significand, with overflow
  to an infinity. The sign of a zero is not kept; the ledger never looks at it.

  Counts, sizes, indices and the budget a plan computes are integers in the program and
  are modelled as \<open>int\<close>; an \<open>int\<close> that enters the ledger is converted by \<open>js_of_int\<close>.
\<close>

datatype jsnum = Num rat | PosInfinity | NegInfinity | NaN

text \<open>
  \<open>floor_log2 a\<close> is the integer \<open>l\<close> with \<open>2^l \<le> a < 2^(l+1)\<close>, for \<open>a > 0\<close>, found from the bit
  lengths of numerator and denominator.
\<close>

definition floor_log2 :: "rat \<Rightarrow> int" where
  "floor_log2 a =
     (let (p, q) = quotient_of a; k = bitlen p - bitlen q
      in if 2 powi k \<le> a then k else k - 1)"

text \<open>The nearest integer, a tie going to the even one.\<close>

definition round_half_even :: "rat \<Rightarrow> int" where
  "round_half_even x =
     (let f = \<lfloor>x\<rfloor>; d = x - of_int f
      in if d < 1 / 2 then f else if 1 / 2 < d then f + 1 else if even f then f else f + 1)"

text \<open>
  Rounding a positive rational: the significand \<open>m\<close> has at most 53 bits and the exponent
  is at least -1074 (below that the values are subnormal). The result \<open>m * 2^e\<close> has left
  the range of the doubles when it reaches \<open>2^1024\<close>, which is when the bit length of \<open>m\<close>
  plus \<open>e\<close> exceeds 1024.
\<close>

definition round_magnitude :: "rat \<Rightarrow> rat option" where
  "round_magnitude a =
     (let e = max (floor_log2 a - 52) (- 1074);
          m = round_half_even (a / 2 powi e)
      in if 0 < m \<and> 1024 < bitlen m + e then None else Some (of_int m * 2 powi e))"

definition round_double :: "rat \<Rightarrow> jsnum" where
  "round_double r =
     (if r = 0 then Num 0
      else case round_magnitude \<bar>r\<bar> of
             None \<Rightarrow> (if 0 < r then PosInfinity else NegInfinity)
           | Some v \<Rightarrow> Num (if 0 < r then v else - v))"

text \<open>The arithmetic of the doubles, with the infinities and \<open>NaN\<close>.\<close>

fun js_add :: "jsnum \<Rightarrow> jsnum \<Rightarrow> jsnum" where
  "js_add (Num a) (Num b) = round_double (a + b)"
| "js_add NaN y = NaN"
| "js_add x NaN = NaN"
| "js_add PosInfinity NegInfinity = NaN"
| "js_add NegInfinity PosInfinity = NaN"
| "js_add PosInfinity y = PosInfinity"
| "js_add x PosInfinity = PosInfinity"
| "js_add NegInfinity y = NegInfinity"
| "js_add x NegInfinity = NegInfinity"

fun js_neg :: "jsnum \<Rightarrow> jsnum" where
  "js_neg (Num a) = Num (- a)"
| "js_neg PosInfinity = NegInfinity"
| "js_neg NegInfinity = PosInfinity"
| "js_neg NaN = NaN"

definition js_sub :: "jsnum \<Rightarrow> jsnum \<Rightarrow> jsnum" where
  "js_sub x y = js_add x (js_neg y)"

fun js_mul :: "jsnum \<Rightarrow> jsnum \<Rightarrow> jsnum" where
  "js_mul (Num a) (Num b) = round_double (a * b)"
| "js_mul NaN y = NaN"
| "js_mul x NaN = NaN"
| "js_mul PosInfinity (Num b) = (if b = 0 then NaN else if 0 < b then PosInfinity else NegInfinity)"
| "js_mul NegInfinity (Num b) = (if b = 0 then NaN else if 0 < b then NegInfinity else PosInfinity)"
| "js_mul (Num a) PosInfinity = (if a = 0 then NaN else if 0 < a then PosInfinity else NegInfinity)"
| "js_mul (Num a) NegInfinity = (if a = 0 then NaN else if 0 < a then NegInfinity else PosInfinity)"
| "js_mul PosInfinity PosInfinity = PosInfinity"
| "js_mul PosInfinity NegInfinity = NegInfinity"
| "js_mul NegInfinity PosInfinity = NegInfinity"
| "js_mul NegInfinity NegInfinity = PosInfinity"

fun js_div :: "jsnum \<Rightarrow> jsnum \<Rightarrow> jsnum" where
  "js_div (Num a) (Num b) =
     (if b = 0 then (if a = 0 then NaN else if 0 < a then PosInfinity else NegInfinity)
      else round_double (a / b))"
| "js_div NaN y = NaN"
| "js_div x NaN = NaN"
| "js_div (Num a) PosInfinity = Num 0"
| "js_div (Num a) NegInfinity = Num 0"
| "js_div PosInfinity (Num b) = (if b < 0 then NegInfinity else PosInfinity)"
| "js_div NegInfinity (Num b) = (if b < 0 then PosInfinity else NegInfinity)"
| "js_div PosInfinity y = NaN"
| "js_div NegInfinity y = NaN"

text \<open>\<open>x >= t\<close> for a threshold of value \<open>t\<close>.\<close>

fun js_ge :: "jsnum \<Rightarrow> rat \<Rightarrow> bool" where
  "js_ge (Num r) t = (t \<le> r)"
| "js_ge PosInfinity t = True"
| "js_ge NegInfinity t = False"
| "js_ge NaN t = False"

text \<open>The double that stands for an integer of the model.\<close>

definition js_of_int :: "int \<Rightarrow> jsnum" where
  "js_of_int n = round_double (of_int n)"

text \<open>A value is a double when rounding leaves it alone.\<close>

definition is_double :: "jsnum \<Rightarrow> bool" where
  "is_double x = (case x of Num r \<Rightarrow> round_double r = Num r | _ \<Rightarrow> True)"

text \<open>\<open>Math.round\<close>: the nearest integer, a tie going up.\<close>

definition js_round :: "rat \<Rightarrow> int" where
  "js_round x = \<lfloor>x + 1 / 2\<rfloor>"

text \<open>\<open>Number.prototype.toString\<close> on an integer.\<close>

fun digits10 :: "nat \<Rightarrow> string" where
  "digits10 n =
     (if n < 10 then [''0123456789'' ! n]
      else digits10 (n div 10) @ [''0123456789'' ! (n mod 10)])"

declare digits10.simps [simp del]

definition toString :: "int \<Rightarrow> string" where
  "toString i = (if i < 0 then CHR ''-'' # digits10 (nat (- i)) else digits10 (nat i))"

text \<open>\<open>String.prototype.replace\<close> with a string pattern: the first occurrence only.\<close>

fun replace :: "string \<Rightarrow> string \<Rightarrow> string \<Rightarrow> string" where
  "replace pat rep [] = (if pat = [] then rep else [])"
| "replace pat rep (c # cs) =
     (if take (length pat) (c # cs) = pat then rep @ drop (length pat) (c # cs)
      else c # replace pat rep cs)"

text \<open>\<open>Array.prototype.join\<close>.\<close>

fun join :: "string \<Rightarrow> string list \<Rightarrow> string" where
  "join sep [] = []"
| "join sep [x] = x"
| "join sep (x # y # ys) = x @ sep @ join sep (y # ys)"

text \<open>
  \<open>Array.prototype.slice(start, end)\<close>: a negative index counts from the end, and both
  indices are clamped to the array.
\<close>

definition slice :: "'a list \<Rightarrow> int \<Rightarrow> int \<Rightarrow> 'a list" where
  "slice xs start stop =
     (let len = int (length xs);
          k = (if start < 0 then max (len + start) 0 else min start len);
          final = (if stop < 0 then max (len + stop) 0 else min stop len)
      in take (nat (final - k)) (drop (nat k) xs))"

text \<open>
  \<open>Set.prototype.add\<close> on a set kept in insertion order; \<open>has\<close> is membership and
  \<open>size\<close> is the length.
\<close>

definition set_add :: "'a \<Rightarrow> 'a list \<Rightarrow> 'a list" where
  "set_add x s = (if x \<in> set s then s else s @ [x])"

section \<open>Data model (types/index.ts)\<close>

datatype Category = UI | DOCUMENTATION | CODE | RESEARCH | CONTENT | ANALYSIS | DESIGN | OTHER

datatype Complexity = SIMPLE | MODERATE | COMPLEX | EXPERT

fun category_string :: "Category \<Rightarrow> string" where
  "category_string UI = ''UI''"
| "category_string DOCUMENTATION = ''DOCUMENTATION''"
| "category_string CODE = ''CODE''"
| "category_string RESEARCH = ''RESEARCH''"
| "category_string CONTENT = ''CONTENT''"
| "category_string ANALYSIS = ''ANALYSIS''"
| "category_string DESIGN = ''DESIGN''"
| "category_string OTHER = ''OTHER''"

fun complexity_string :: "Complexity \<Rightarrow> string" where
  "complexity_string SIMPLE = ''SIMPLE''"
| "complexity_string MODERATE = ''MODERATE''"
| "complexity_string COMPLEX = ''COMPLEX''"
| "complexity_string EXPERT = ''EXPERT''"

record SpecificationDomain =
  category :: Category
  subcategory :: string
  targetAudience :: string
  complexity :: Complexity

record OutputRequirements =
  format :: string
  structure_out :: string
  namingPattern :: string
  qualityStandards_out :: "string list"

record SophisticationLevel =
  level :: int
  name_level :: string
  description_level :: string
  innovationTargets :: "string list"
  qualityExpectations :: "string list"

text \<open>
  Of a specification the wave manager reads the name, the description, the domain, the
  output requirements, the innovation dimensions and the success criteria; the remaining
  fields (version, constraints, evolution pattern, validation rules) are carried by the
  parser only and are left out.
\<close>

record UniversalSpecification =
  id_spec :: string
  name_spec :: string
  description_spec :: string
  domain :: SpecificationDomain
  outputRequirements :: OutputRequirements
  innovationDimensions :: "string list"
  sophisticationLevels :: "SophisticationLevel list"
  successCriteria :: "string list"

record IterationInfo =
  number :: int
  filePath :: string
  summary :: string
  innovationDimensions_iter :: "string list"
  qualityScore_iter :: rat
  uniquenessScore_iter :: rat

text \<open>
  \<open>innovationFocus\<close> is read from an array by index; an index outside the array yields
  \<open>undefined\<close>, which is \<open>None\<close> here.
\<close>

record UniqueDirective =
  innovationFocus :: "string option"
  creativeBoundary :: string
  differentiationStrategy :: string
  targetAudience_dir :: string

record TaskContext =
  specificationSummary :: string
  existingWork :: "string list"
  domainContext :: string
  goalStatement :: string

record QualityStandards =
  functionalRequirements :: "string list"
  designRequirements :: "string list"
  performanceRequirements :: "string list"
  uniquenessRequirements :: "string list"
  domainSpecificRequirements :: "string list"

record AgentAssignment =
  agentId :: string
  iterationNumber :: int
  uniqueDirective :: UniqueDirective
  taskContext :: TaskContext
  qualityStandards :: QualityStandards

datatype WaveStatus = PLANNED | IN_PROGRESS | COMPLETED | FAILED | CANCELLED

record WaveResult =
  agentId_res :: string
  iterationNumber_res :: int
  success :: bool
  outputPath :: "string option"
  qualityScore :: "rat option"
  uniquenessScore :: "rat option"
  errorMessage :: "string option"
  completionTime :: int

record GenerationWave =
  id_wave :: string
  waveNumber :: int
  specification_wave :: UniversalSpecification
  sophisticationLevel :: SophisticationLevel
  agentAssignments :: "AgentAssignment list"
  maxConcurrency :: int
  contextBudget :: int
  estimatedDuration :: int
  outputDirectory :: string
  existingIterations :: "IterationInfo list"
  targetIterations :: int
  status :: WaveStatus
  startTime :: "int option"
  endTime :: "int option"
  results :: "WaveResult list option"

datatype ModeType = SINGLE | BATCH | INFINITE

datatype ModeCount = Count int | INFINITE_count

record OrchestrationMode =
  type_mode :: ModeType
  count_mode :: ModeCount
  batchSize :: "int option"
  maxWaves :: "int option"

text \<open>
  The two \<open>Map\<close>s of the monitor are association lists in insertion order:
  \<open>AList.update\<close> is \<open>Map.prototype.set\<close> (an existing key keeps its place and gets the
  new value), \<open>AList.delete\<close> is \<open>delete\<close>, \<open>map_of\<close> is \<open>get\<close>.
\<close>

record ContextMonitor =
  totalCapacity :: jsnum
  usedCapacity :: jsnum
  reservedCapacity :: jsnum
  waveUsage :: "(string \<times> jsnum) list"
  agentUsage :: "(string \<times> jsnum) list"
  utilizationPercentage :: jsnum
  remainingCapacity :: jsnum

record WavePlanResult =
  waveConfiguration :: GenerationWave
  agentAssignments_plan :: "AgentAssignment list"
  estimatedDuration_plan :: int
  contextRequirement :: int

section \<open>The wave manager (orchestration/waveManager.ts)\<close>

text \<open>
  The state of one \<open>WaveManager\<close> object. \<open>activeWaves\<close> holds the wave as it was when
  \<open>executeWave\<close> registered it; the manager reads only its \<open>waveNumber\<close>, which is never
  reassigned.
\<close>

record WaveManager =
  contextMonitor :: ContextMonitor
  activeWaves :: "(string \<times> GenerationWave) list"

definition new_WaveManager :: "int \<Rightarrow> WaveManager" where
  "new_WaveManager initialCapacity =
     \<lparr>contextMonitor =
        \<lparr>totalCapacity = js_of_int initialCapacity, usedCapacity = Num 0,
         reservedCapacity = Num 0, waveUsage = [], agentUsage = [],
         utilizationPercentage = Num 0, remainingCapacity = js_of_int initialCapacity\<rparr>,
      activeWaves = []\<rparr>"

subsection \<open>The context ledger\<close>

definition updateContextUsage :: "string \<Rightarrow> jsnum \<Rightarrow> WaveManager \<Rightarrow> WaveManager" where
  "updateContextUsage waveId usage this =
     (let m = contextMonitor this;
          m1 = m\<lparr>waveUsage := AList.update waveId usage (waveUsage m)\<rparr>;
          m2 = m1\<lparr>usedCapacity := js_add (usedCapacity m1) usage\<rparr>;
          m3 = m2\<lparr>remainingCapacity := js_sub (totalCapacity m2) (usedCapacity m2)\<rparr>;
          m4 = m3\<lparr>utilizationPercentage :=
                    js_mul (js_div (usedCapacity m3) (totalCapacity m3)) (Num 100)\<rparr>
      in this\<lparr>contextMonitor := m4\<rparr>)"

text \<open>
  \<open>waveUsage.get(waveId) || 0\<close>: a missing entry, an entry of zero and an entry of \<open>NaN\<close>
  give zero.
\<close>

fun usage_or_zero :: "jsnum option \<Rightarrow> jsnum" where
  "usage_or_zero None = Num 0"
| "usage_or_zero (Some NaN) = Num 0"
| "usage_or_zero (Some (Num r)) = (if r = 0 then Num 0 else Num r)"
| "usage_or_zero (Some v) = v"

definition releaseContextUsage :: "string \<Rightarrow> WaveManager \<Rightarrow> WaveManager" where
  "releaseContextUsage waveId this =
     (let m = contextMonitor this;
          usage = usage_or_zero (map_of (waveUsage m) waveId);
          m1 = m\<lparr>usedCapacity := js_sub (usedCapacity m) usage\<rparr>;
          m2 = m1\<lparr>waveUsage := AList.delete waveId (waveUsage m1)\<rparr>;
          m3 = m2\<lparr>remainingCapacity := js_sub (totalCapacity m2) (usedCapacity m2)\<rparr>;
          m4 = m3\<lparr>utilizationPercentage :=
                    js_mul (js_div (usedCapacity m3) (totalCapacity m3)) (Num 100)\<rparr>
      in this\<lparr>contextMonitor := m4, activeWaves := AList.delete waveId (activeWaves this)\<rparr>)"

definition shouldTriggerGracefulShutdown :: "rat \<Rightarrow> WaveManager \<Rightarrow> bool" where
  "shouldTriggerGracefulShutdown threshold this =
     js_ge (utilizationPercentage (contextMonitor this)) threshold"

definition getContextMonitor :: "WaveManager \<Rightarrow> ContextMonitor" where
  "getContextMonitor this = contextMonitor this"

text \<open>
  Sequences of ledger operations, and the sum of the recorded reservations, added up in
  the order of the map as the program would add them.
\<close>

datatype ledger_op = Reserve string jsnum | Release string

fun apply_ledger_op :: "WaveManager \<Rightarrow> ledger_op \<Rightarrow> WaveManager" where
  "apply_ledger_op this (Reserve waveId usage) = updateContextUsage waveId usage this"
| "apply_ledger_op this (Release waveId) = releaseContextUsage waveId this"

definition run_ledger_ops :: "WaveManager \<Rightarrow> ledger_op list \<Rightarrow> WaveManager" where
  "run_ledger_ops this ops = foldl apply_ledger_op this ops"

definition reserved_sum :: "WaveManager \<Rightarrow> jsnum" where
  "reserved_sum this = foldl js_add (Num 0) (map snd (waveUsage (contextMonitor this)))"

text \<open>
  The magnitudes and the values of the finite reservations held, as exact rationals.
\<close>

fun magnitude :: "jsnum \<Rightarrow> rat" where
  "magnitude (Num r) = \<bar>r\<bar>"
| "magnitude v = 0"

fun finite_value :: "jsnum \<Rightarrow> rat" where
  "finite_value (Num r) = r"
| "finite_value v = 0"

fun held_magnitude :: "(string \<times> jsnum) list \<Rightarrow> rat" where
  "held_magnitude [] = 0"
| "held_magnitude ((k, v) # al) = magnitude v + held_magnitude al"

fun held_total :: "(string \<times> jsnum) list \<Rightarrow> rat" where
  "held_total [] = 0"
| "held_total ((k, v) # al) = finite_value v + held_total al"

text \<open>
  A sequence reserves exactly when no \<open>Reserve\<close> names a wave that holds a reservation
  at that moment, every reserved amount is an integer, and the magnitudes of the
  reservations held never add up to more than \<open>2^53\<close>, so that no sum is rounded.
\<close>

fun integer_amount :: "jsnum \<Rightarrow> bool" where
  "integer_amount (Num r) = (of_int \<lfloor>r\<rfloor> = r)"
| "integer_amount v = False"

fun reserves_exactly :: "WaveManager \<Rightarrow> ledger_op list \<Rightarrow> bool" where
  "reserves_exactly this [] = True"
| "reserves_exactly this (Reserve waveId usage # ops) =
     (waveId \<notin> fst ` set (waveUsage (contextMonitor this))
      \<and> integer_amount usage
      \<and> held_magnitude (waveUsage (contextMonitor this)) + magnitude usage \<le> 2 ^ 53
      \<and> reserves_exactly (updateContextUsage waveId usage this) ops)"
| "reserves_exactly this (Release waveId # ops) =
     reserves_exactly (releaseContextUsage waveId this) ops"

subsection \<open>Planning a wave\<close>

text \<open>
  \<open>mode.batchSize || 5\<close>: an absent batch size and a batch size of zero both give the
  default.
\<close>

definition batchSize_or_default :: "int option \<Rightarrow> int" where
  "batchSize_or_default b = (case b of None \<Rightarrow> 5 | Some n \<Rightarrow> (if n = 0 then 5 else n))"

definition calculateWaveSize :: "OrchestrationMode \<Rightarrow> int \<Rightarrow> int" where
  "calculateWaveSize mode existingCount =
     (case type_mode mode of
        SINGLE \<Rightarrow> 1
      | BATCH \<Rightarrow>
          (case count_mode mode of
             INFINITE_count \<Rightarrow> 5
           | Count c \<Rightarrow> min (c - existingCount) (batchSize_or_default (batchSize mode)))
      | INFINITE \<Rightarrow> 5)"

text \<open>
  The two estimates multiply by \<open>1.5\<close> and \<open>1.3\<close>; the model takes the exact products
  \<open>3/2\<close> and \<open>13/10\<close> before rounding.
\<close>

definition estimateContextRequirement :: "int \<Rightarrow> SophisticationLevel \<Rightarrow> int" where
  "estimateContextRequirement waveSize lvl =
     (let baseRequirement = 5000;
          sophisticationMultiplier = of_int (level lvl) * (3 / 2)
      in js_round (of_int waveSize * baseRequirement * sophisticationMultiplier))"

definition estimateWaveDuration :: "int \<Rightarrow> SophisticationLevel \<Rightarrow> int" where
  "estimateWaveDuration waveSize lvl =
     (let baseTime = 120;
          sophisticationMultiplier = of_int (level lvl) * (13 / 10)
      in js_round (baseTime * sophisticationMultiplier))"

definition getNextWaveNumber :: "WaveManager \<Rightarrow> int" where
  "getNextWaveNumber this = foldr max (map (waveNumber \<circ> snd) (activeWaves this)) 0 + 1"

text \<open>A template literal prints \<open>undefined\<close> for a focus that was read out of range.\<close>

definition focus_string :: "string option \<Rightarrow> string" where
  "focus_string focus = (case focus of None \<Rightarrow> ''undefined'' | Some s \<Rightarrow> s)"

definition generateCreativeBoundary ::
  "UniversalSpecification \<Rightarrow> string option \<Rightarrow> SophisticationLevel \<Rightarrow> string" where
  "generateCreativeBoundary spec focus lvl =
     ''Explore '' @ focus_string focus @ '' with '' @ name_level lvl
       @ '' level innovation while maintaining '' @ category_string (category (domain spec))
       @ '' best practices''"

definition generateDifferentiationStrategy ::
  "IterationInfo list \<Rightarrow> SophisticationLevel \<Rightarrow> string" where
  "generateDifferentiationStrategy existing lvl =
     (if length existing = 0
      then ''Establish foundational approach for '' @ name_level lvl @ '' level implementation''
      else ''Build upon existing approaches while introducing novel '' @ name_level lvl
             @ '' level concepts'')"

definition generateSpecificationSummary :: "UniversalSpecification \<Rightarrow> string" where
  "generateSpecificationSummary spec =
     name_spec spec @ '': '' @ description_spec spec @ '' | Domain: ''
       @ category_string (category (domain spec)) @ '' | Output: ''
       @ format (outputRequirements spec)"

definition generateDomainContext :: "SpecificationDomain \<Rightarrow> string" where
  "generateDomainContext d =
     category_string (category d) @ '' development for '' @ targetAudience d @ '' with ''
       @ complexity_string (complexity d) @ '' complexity''"

definition generateGoalStatement ::
  "UniversalSpecification \<Rightarrow> string option \<Rightarrow> int \<Rightarrow> string" where
  "generateGoalStatement spec focus iteration =
     ''Create iteration '' @ toString iteration @ '' focusing on '' @ focus_string focus
       @ '' while meeting: '' @ join '', '' (successCriteria spec)"

definition generatePerformanceRequirements :: "SpecificationDomain \<Rightarrow> string list" where
  "generatePerformanceRequirements d =
     (let baseRequirements = [''Efficient execution'', ''Reasonable resource usage'']
      in case category d of
           UI \<Rightarrow> baseRequirements @ [''Fast rendering'', ''Responsive interactions'']
         | CODE \<Rightarrow> baseRequirements @ [''Optimal time complexity'', ''Memory efficiency'']
         | _ \<Rightarrow> baseRequirements)"

definition generateDomainSpecificRequirements :: "SpecificationDomain \<Rightarrow> string list" where
  "generateDomainSpecificRequirements d =
     (case category d of
        UI \<Rightarrow> [''Accessibility compliance'', ''Cross-browser compatibility'',
               ''Mobile responsiveness'']
      | CODE \<Rightarrow> [''Code maintainability'', ''Documentation'', ''Test coverage'']
      | DOCUMENTATION \<Rightarrow> [''Clear structure'', ''Comprehensive examples'',
                          ''Search optimization'']
      | _ \<Rightarrow> [''Domain best practices'', ''Industry standards compliance''])"

text \<open>
  The dimensions an assignment may still take: those not used yet, or all of them once
  the used set is as large as the pool.
\<close>

definition availableDimensions :: "string list \<Rightarrow> string option list \<Rightarrow> string list" where
  "availableDimensions dims usedDimensions =
     filter (\<lambda>dim. Some dim \<notin> set usedDimensions \<or> length dims \<le> length usedDimensions) dims"

text \<open>\<open>availableDimensions[i % availableDimensions.length]\<close>, for \<open>i \<ge> 0\<close>.\<close>

definition selectFocus :: "string list \<Rightarrow> int \<Rightarrow> string option" where
  "selectFocus available i =
     (if available = [] then None else Some (available ! (nat i mod length available)))"

definition existingDimensions :: "IterationInfo list \<Rightarrow> string option list" where
  "existingDimensions existing =
     foldl (\<lambda>used iteration.
              foldl (\<lambda>used dim. set_add (Some dim) used) used (innovationDimensions_iter iteration))
       [] existing"

text \<open>
  One assignment, from the loop index and the chosen focus. \<open>uuid\<close> is the value
  \<open>crypto.randomUUID()\<close> returns for this agent.
\<close>

definition makeAssignment ::
  "string \<Rightarrow> UniversalSpecification \<Rightarrow> IterationInfo list \<Rightarrow> SophisticationLevel
     \<Rightarrow> int \<Rightarrow> string option \<Rightarrow> AgentAssignment" where
  "makeAssignment uuid spec existing lvl i focus =
     (let iterationNo = int (length existing) + i + 1
      in \<lparr>agentId = ''agent_'' @ take 8 uuid,
          iterationNumber = iterationNo,
          uniqueDirective =
            \<lparr>innovationFocus = focus,
             creativeBoundary = generateCreativeBoundary spec focus lvl,
             differentiationStrategy = generateDifferentiationStrategy existing lvl,
             targetAudience_dir = targetAudience (domain spec)\<rparr>,
          taskContext =
            \<lparr>specificationSummary = generateSpecificationSummary spec,
             existingWork =
               map (\<lambda>iter. toString (number iter) @ '': '' @ summary iter) existing,
             domainContext = generateDomainContext (domain spec),
             goalStatement = generateGoalStatement spec focus iterationNo\<rparr>,
          qualityStandards =
            \<lparr>functionalRequirements = qualityStandards_out (outputRequirements spec),
             designRequirements = qualityExpectations lvl,
             performanceRequirements = generatePerformanceRequirements (domain spec),
             uniquenessRequirements =
               [''Must differentiate from existing iterations'',
                ''Must explore '' @ focus_string focus @ '' dimension'',
                ''Must achieve '' @ name_level lvl @ '' level quality''],
             domainSpecificRequirements = generateDomainSpecificRequirements (domain spec)\<rparr>\<rparr>)"

text \<open>
  The loop \<open>for (let i = 0; i < waveSize; i++)\<close>, with the assignments pushed so far and
  the used set as its state. \<open>uuids\<close> supplies the random identifiers: \<open>uuids 0\<close> for the
  wave, \<open>uuids (i + 1)\<close> for agent \<open>i\<close>.
\<close>

function generateAgentAssignments_loop ::
  "(nat \<Rightarrow> string) \<Rightarrow> UniversalSpecification \<Rightarrow> int \<Rightarrow> IterationInfo list
     \<Rightarrow> SophisticationLevel \<Rightarrow> int \<Rightarrow> AgentAssignment list \<Rightarrow> string option list
     \<Rightarrow> AgentAssignment list" where
  "generateAgentAssignments_loop uuids spec waveSize existing lvl i assignments used =
     (if i < waveSize
      then generateAgentAssignments_loop uuids spec waveSize existing lvl (i + 1)
             (assignments @
                [makeAssignment (uuids (nat i + 1)) spec existing lvl i
                   (selectFocus (availableDimensions (innovationDimensions spec) used) i)])
             (set_add (selectFocus (availableDimensions (innovationDimensions spec) used) i) used)
      else assignments)"
  by pat_completeness auto
termination
  by (relation "measure (\<lambda>(uuids, spec, waveSize, existing, lvl, i, assignments, used).
                  nat (waveSize - i))") auto

declare generateAgentAssignments_loop.simps [simp del]

definition generateAgentAssignments ::
  "(nat \<Rightarrow> string) \<Rightarrow> UniversalSpecification \<Rightarrow> int \<Rightarrow> IterationInfo list
     \<Rightarrow> SophisticationLevel \<Rightarrow> string \<Rightarrow> AgentAssignment list" where
  "generateAgentAssignments uuids spec waveSize existing lvl outputDir =
     generateAgentAssignments_loop uuids spec waveSize existing lvl 0 []
       (existingDimensions existing)"

definition planWave ::
  "(nat \<Rightarrow> string) \<Rightarrow> WaveManager \<Rightarrow> UniversalSpecification \<Rightarrow> OrchestrationMode
     \<Rightarrow> IterationInfo list \<Rightarrow> SophisticationLevel \<Rightarrow> string \<Rightarrow> WavePlanResult" where
  "planWave uuids this spec mode existing lvl outputDir =
     (let waveId = uuids 0;
          waveNo = getNextWaveNumber this;
          waveSize = calculateWaveSize mode (int (length existing));
          contextReq = estimateContextRequirement waveSize lvl;
          assignments = generateAgentAssignments uuids spec waveSize existing lvl outputDir;
          waveConfig =
            \<lparr>id_wave = waveId, waveNumber = waveNo, specification_wave = spec,
             sophisticationLevel = lvl, agentAssignments = assignments,
             maxConcurrency = min waveSize 5, contextBudget = contextReq,
             estimatedDuration = estimateWaveDuration waveSize lvl,
             outputDirectory = outputDir, existingIterations = existing,
             targetIterations = waveSize, status = PLANNED,
             startTime = None, endTime = None, results = None\<rparr>
      in \<lparr>waveConfiguration = waveConfig, agentAssignments_plan = assignments,
          estimatedDuration_plan = estimatedDuration waveConfig,
          contextRequirement = contextReq\<rparr>)"

subsection \<open>Executing a wave\<close>

text \<open>
  \<open>createAgentBatches\<close>: the index advances by \<open>maxConcurrency\<close>, so the loop ends only
  if that is positive or there is nothing to batch. A run that never ends is \<open>None\<close>.
\<close>

partial_function (option) createAgentBatches_loop ::
  "'a list \<Rightarrow> int \<Rightarrow> int \<Rightarrow> 'a list list \<Rightarrow> 'a list list option" where
  "createAgentBatches_loop assignments maxConc i batches =
     (if i < int (length assignments)
      then createAgentBatches_loop assignments maxConc (i + maxConc)
             (batches @ [slice assignments i (i + maxConc)])
      else Some batches)"

declare createAgentBatches_loop.simps [code]

definition createAgentBatches :: "'a list \<Rightarrow> int \<Rightarrow> 'a list list option" where
  "createAgentBatches assignments maxConc = createAgentBatches_loop assignments maxConc 0 []"

text \<open>
  What the body of \<open>executeAgent\<close>'s \<open>try\<close> does for one assignment is given by the
  environment: it throws (\<open>Inl\<close>, with the thrown value as the template literal prints
  it) or it completes with the two \<open>Math.random()\<close> draws of the simulated scores
  (\<open>Inr\<close>); \<open>elapsed\<close> is \<open>Date.now() - startTime\<close> when the result is built.
\<close>

record WorkerRun =
  outcome :: "string + rat \<times> rat"
  elapsed :: int

type_synonym WorkerExecution = "AgentAssignment \<Rightarrow> WorkerRun"

text \<open>
  An awaited call settles as fulfilled (\<open>Inr\<close>) or rejected (\<open>Inl\<close>); a rejection carries
  what was thrown, as a template literal prints it, and its place in the order in which
  the calls settle. \<open>executeAgent\<close> catches whatever its body throws and fulfils in both
  branches.
\<close>

record Rejection =
  reason :: string
  settledAt :: int

definition executeAgent ::
  "WorkerExecution \<Rightarrow> AgentAssignment \<Rightarrow> GenerationWave \<Rightarrow> Rejection + WaveResult" where
  "executeAgent worker assignment wave =
     (case outcome (worker assignment) of
        Inr (r1, r2) \<Rightarrow>
          Inr \<lparr>agentId_res = agentId assignment,
               iterationNumber_res = iterationNumber assignment,
               success = True,
               outputPath = Some (outputDirectory wave @ ''/'' @
                 replace ''{number}'' (toString (iterationNumber assignment))
                   (namingPattern (outputRequirements (specification_wave wave)))),
               qualityScore = Some (85 + r1 * 15),
               uniquenessScore = Some (80 + r2 * 20),
               errorMessage = None,
               completionTime = elapsed (worker assignment)\<rparr>
      | Inl error \<Rightarrow>
          Inr \<lparr>agentId_res = agentId assignment,
               iterationNumber_res = iterationNumber assignment,
               success = False,
               outputPath = None, qualityScore = None, uniquenessScore = None,
               errorMessage = Some (''Agent execution failed: '' @ error),
               completionTime = elapsed (worker assignment)\<rparr>)"

text \<open>
  \<open>Promise.all\<close>: the values in list order, or the rejection that settles first (the
  earlier in the list when two settle together).
\<close>

fun promise_all :: "(Rejection + 'a) list \<Rightarrow> Rejection + 'a list" where
  "promise_all [] = Inr []"
| "promise_all (Inl r # ps) =
     (case promise_all ps of
        Inl r' \<Rightarrow> Inl (if settledAt r' < settledAt r then r' else r)
      | Inr vs \<Rightarrow> Inl r)"
| "promise_all (Inr v # ps) =
     (case promise_all ps of Inl r' \<Rightarrow> Inl r' | Inr vs \<Rightarrow> Inr (v # vs))"

type_synonym AgentExecution = "AgentAssignment \<Rightarrow> GenerationWave \<Rightarrow> Rejection + WaveResult"

definition executeBatch ::
  "AgentExecution \<Rightarrow> AgentAssignment list \<Rightarrow> GenerationWave \<Rightarrow> Rejection + WaveResult list" where
  "executeBatch exec batch wave = promise_all (map (\<lambda>assignment. exec assignment wave) batch)"

text \<open>
  The loop over the batches inside the \<open>try\<close> of \<open>executeWave\<close>: each batch is awaited
  before the next starts, and a rejection leaves the loop.
\<close>

fun executeBatches ::
  "AgentExecution \<Rightarrow> AgentAssignment list list \<Rightarrow> GenerationWave \<Rightarrow> WaveResult list
     \<Rightarrow> Rejection + WaveResult list" where
  "executeBatches exec [] wave collected = Inr collected"
| "executeBatches exec (batch # batches) wave collected =
     (case executeBatch exec batch wave of
        Inl rejection \<Rightarrow> Inl rejection
      | Inr batchResults \<Rightarrow> executeBatches exec batches wave (collected @ batchResults))"

text \<open>
  \<open>executeWave\<close>, with the method that runs one agent as a parameter. Its \<open>catch\<close> clause
  handles the rejection of an awaited batch; \<open>executeAgent\<close> as written never rejects, so
  the parameter is what makes that clause a path of the model. The result is the
  returned list (\<open>Inr\<close>) or the message of the error thrown (\<open>Inl\<close>), with the wave and the
  manager as the call leaves them; \<open>t0\<close> and \<open>t1\<close> are the two clock readings. The
  \<open>finally\<close> clause releases on both paths. A call that never returns is \<open>None\<close>.
\<close>

definition executeWave_with ::
  "AgentExecution \<Rightarrow> int \<Rightarrow> int \<Rightarrow> GenerationWave \<Rightarrow> WaveManager
     \<Rightarrow> ((string + WaveResult list) \<times> GenerationWave \<times> WaveManager) option" where
  "executeWave_with exec t0 t1 wave this =
     (let wave1 = wave\<lparr>status := IN_PROGRESS, startTime := Some t0\<rparr>;
          this1 = this\<lparr>activeWaves := AList.update (id_wave wave1) wave1 (activeWaves this)\<rparr>;
          this2 = updateContextUsage (id_wave wave1) (js_of_int (contextBudget wave1)) this1
      in case createAgentBatches (agentAssignments wave1) (maxConcurrency wave1) of
           None \<Rightarrow> None
         | Some batches \<Rightarrow>
             (case executeBatches exec batches wave1 [] of
                Inr res \<Rightarrow>
                  Some (Inr res,
                        wave1\<lparr>status := COMPLETED, endTime := Some t1, results := Some res\<rparr>,
                        releaseContextUsage (id_wave wave1) this2)
              | Inl rejection \<Rightarrow>
                  Some (Inl (''Wave execution failed: '' @ reason rejection),
                        wave1\<lparr>status := FAILED, endTime := Some t1\<rparr>,
                        releaseContextUsage (id_wave wave1) this2)))"

definition executeWave ::
  "WorkerExecution \<Rightarrow> int \<Rightarrow> int \<Rightarrow> GenerationWave \<Rightarrow> WaveManager
     \<Rightarrow> ((string + WaveResult list) \<times> GenerationWave \<times> WaveManager) option" where
  "executeWave worker = executeWave_with (executeAgent worker)"

section \<open>Derived notions and example inputs\<close>

text \<open>The focus an assignment was given.\<close>

definition assignedFocus :: "AgentAssignment \<Rightarrow> string option" where
  "assignedFocus a = innovationFocus (uniqueDirective a)"

text \<open>
  The ledger is exact when no wave is recorded twice, every recorded reservation is an
  integer, their magnitudes add up to at most \<open>2^53\<close>, and the used capacity is their sum.
\<close>

definition ledger_inv :: "WaveManager \<Rightarrow> bool" where
  "ledger_inv this =
     (distinct (map fst (waveUsage (contextMonitor this)))
      \<and> (\<forall>v \<in> snd ` set (waveUsage (contextMonitor this)). integer_amount v)
      \<and> held_magnitude (waveUsage (contextMonitor this)) \<le> 2 ^ 53
      \<and> usedCapacity (contextMonitor this) = Num (held_total (waveUsage (contextMonitor this))))"

text \<open>
  A ledger of capacity 10000 after wave A reserved 6000, and one in which wave A
  reserved \<open>2^53\<close>.
\<close>

definition scenario_ledger :: WaveManager where
  "scenario_ledger = updateContextUsage ''waveA'' (Num 6000) (new_WaveManager 10000)"

definition brimful_ledger :: WaveManager where
  "brimful_ledger = updateContextUsage ''waveA'' (Num (2 ^ 53)) (new_WaveManager 100000)"

definition example_uuids :: "nat \<Rightarrow> string" where
  "example_uuids n = digits10 n @ ''f81d4fae-7dec-11d0-a765-00a0c91e6bf6''"

definition example_spec :: UniversalSpecification where
  "example_spec =
     \<lparr>id_spec = ''6ba7b810-9dad-11d1-80b4-00c04fd430c8'', name_spec = ''Cards'',
      description_spec = ''Card components'',
      domain = \<lparr>category = UI, subcategory = ''React components'',
                targetAudience = ''Developers'', complexity = MODERATE\<rparr>,
      outputRequirements = \<lparr>format = ''file'', structure_out = ''single file'',
                namingPattern = ''card_{number}.tsx'', qualityStandards_out = [''Compiles'']\<rparr>,
      innovationDimensions = [''layout'', ''color'', ''motion''],
      sophisticationLevels = [],
      successCriteria = [''Renders'', ''Accessible'']\<rparr>"

definition example_level :: SophisticationLevel where
  "example_level =
     \<lparr>level = 1, name_level = ''Basic'', description_level = ''Entry level'',
      innovationTargets = [''clarity''], qualityExpectations = [''Clean code'']\<rparr>"

definition example_iteration :: IterationInfo where
  "example_iteration =
     \<lparr>number = 1, filePath = ''out/card_1.tsx'', summary = ''plain card'',
      innovationDimensions_iter = [''layout''],
      qualityScore_iter = 90, uniquenessScore_iter = 85\<rparr>"

definition batch_mode :: "int \<Rightarrow> int option \<Rightarrow> OrchestrationMode" where
  "batch_mode c b = \<lparr>type_mode = BATCH, count_mode = Count c, batchSize = b, maxWaves = None\<rparr>"

text \<open>A planned wave of three assignments, run two at a time, and the same wave with a
  concurrency of zero.\<close>

definition example_plan :: WavePlanResult where
  "example_plan =
     planWave example_uuids (new_WaveManager 100000) example_spec (batch_mode 3 (Some 5)) []
       example_level ''out''"

definition example_wave :: GenerationWave where
  "example_wave = (waveConfiguration example_plan)\<lparr>maxConcurrency := 2\<rparr>"

definition stuck_wave :: GenerationWave where
  "stuck_wave = (waveConfiguration example_plan)\<lparr>maxConcurrency := 0\<rparr>"

text \<open>A worker that always completes, and one that throws for iteration 2.\<close>

definition steady_worker :: WorkerExecution where
  "steady_worker assignment = \<lparr>outcome = Inr (1 / 2, 1 / 4), elapsed = 1000\<rparr>"

definition flaky_worker :: WorkerExecution where
  "flaky_worker assignment =
     (if iterationNumber assignment = 2
      then \<lparr>outcome = Inl ''Error: worker timed out'', elapsed = 30000\<rparr>
      else \<lparr>outcome = Inr (1 / 2, 1 / 4), elapsed = 1000\<rparr>)"

text \<open>The wave as \<open>executeWave\<close> marks it before the first batch runs.\<close>

definition started :: "int \<Rightarrow> GenerationWave \<Rightarrow> GenerationWave" where
  "started t0 wave = wave\<lparr>status := IN_PROGRESS, startTime := Some t0\<rparr>"

section \<open>The context ledger: properties\<close>

subsection \<open>Rounding\<close>

lemma pow2_nat: "(2::rat) powi int n = 2 ^ n"
  by simp

lemma pow2_less_cancel: "(2::rat) powi a < 2 powi b \<Longrightarrow> a < b"
proof (rule ccontr)
  assume lt: "(2::rat) powi a < 2 powi b" and "\<not> a < b"
  then have "b \<le> a" by simp
  then have "(2::rat) powi b \<le> 2 powi a" by (intro power_int_increasing) simp_all
  with lt show False by simp
qed

lemma bitlen_pow2_bounds:
  assumes "0 < p"
  shows "(2::rat) powi (bitlen p - 1) \<le> of_int p" and "of_int p < (2::rat) powi bitlen p"
proof -
  from bitlen_bounds [OF assms] have lo: "2 ^ nat (bitlen p - 1) \<le> p" and hi: "p < 2 ^ nat (bitlen p)"
    by simp_all
  from assms have b1: "1 \<le> bitlen p" by (simp add: bitlen_alt_def)
  have "(2::rat) powi (bitlen p - 1) = 2 ^ nat (bitlen p - 1)"
    using b1 by (simp add: power_int_nonneg_exp)
  also have "\<dots> = of_int (2 ^ nat (bitlen p - 1))" by simp
  also have "\<dots> \<le> of_int p" using lo by (simp only: of_int_le_iff)
  finally show "(2::rat) powi (bitlen p - 1) \<le> of_int p" .
  have "(of_int p :: rat) < of_int (2 ^ nat (bitlen p))" using hi by (simp only: of_int_less_iff)
  also have "\<dots> = 2 ^ nat (bitlen p)" by simp
  also have "\<dots> = (2::rat) powi bitlen p" using b1 by (simp add: power_int_nonneg_exp)
  finally show "of_int p < (2::rat) powi bitlen p" .
qed

lemma floor_log2_bounds:
  assumes "0 < a"
  shows "2 powi floor_log2 a \<le> a" and "a < 2 powi (floor_log2 a + 1)"
proof -
  obtain p q where pq: "quotient_of a = (p, q)" by (cases "quotient_of a")
  then have q: "0 < q" and a: "a = of_int p / of_int q"
    by (simp_all add: quotient_of_denom_pos quotient_of_div)
  from assms a q have p: "0 < p" by (simp add: zero_less_divide_iff)
  let ?k = "bitlen p - bitlen q"
  note P = bitlen_pow2_bounds [OF p] and Q = bitlen_pow2_bounds [OF q]
  have qpos: "(0::rat) < of_int q" using q by simp
  have lower: "(2::rat) powi (?k - 1) \<le> a"
  proof -
    have "(2::rat) powi (?k - 1) * of_int q \<le> 2 powi (?k - 1) * 2 powi bitlen q"
      using Q(2) by (intro mult_left_mono) simp_all
    also have "\<dots> = 2 powi (bitlen p - 1)"
      by (simp add: power_int_add [symmetric])
    also have "\<dots> \<le> of_int p" by (rule P(1))
    finally show ?thesis using qpos by (simp add: a pos_le_divide_eq)
  qed
  have upper: "a < (2::rat) powi (?k + 1)"
  proof -
    have "of_int p < (2::rat) powi bitlen p" by (rule P(2))
    also have "\<dots> = 2 powi (?k + 1) * 2 powi (bitlen q - 1)"
      by (simp add: power_int_add [symmetric])
    also have "\<dots> \<le> 2 powi (?k + 1) * of_int q"
      using Q(1) by (intro mult_left_mono) simp_all
    finally show ?thesis using qpos by (simp add: a pos_divide_less_eq)
  qed
  have fl: "floor_log2 a = (if 2 powi ?k \<le> a then ?k else ?k - 1)"
    by (simp add: floor_log2_def pq Let_def)
  show "2 powi floor_log2 a \<le> a" using lower by (simp add: fl)
  show "a < 2 powi (floor_log2 a + 1)" using upper by (auto simp: fl not_le)
qed

lemma round_half_even_of_int [simp]: "round_half_even (of_int z) = z"
  by (simp add: round_half_even_def)

lemma round_half_even_bounds: "\<lfloor>x\<rfloor> \<le> round_half_even x" "round_half_even x \<le> \<lfloor>x\<rfloor> + 1"
  by (simp_all add: round_half_even_def Let_def)

lemma overflow_iff:
  assumes "0 < m"
  shows "1024 < bitlen m + e \<longleftrightarrow> (2::rat) powi 1024 \<le> of_int m * 2 powi e"
proof
  assume "1024 < bitlen m + e"
  then have "(2::rat) powi 1024 \<le> 2 powi (bitlen m - 1 + e)"
    by (intro power_int_increasing) simp_all
  also have "\<dots> = 2 powi (bitlen m - 1) * 2 powi e" by (rule power_int_add) simp
  also have "\<dots> \<le> of_int m * 2 powi e"
    using bitlen_pow2_bounds(1) [OF assms] by (intro mult_right_mono) simp_all
  finally show "(2::rat) powi 1024 \<le> of_int m * 2 powi e" .
next
  assume le: "(2::rat) powi 1024 \<le> of_int m * 2 powi e"
  have "of_int m * 2 powi e < (2::rat) powi bitlen m * 2 powi e"
    using bitlen_pow2_bounds(2) [OF assms] by (intro mult_strict_right_mono) simp_all
  also have "\<dots> = 2 powi (bitlen m + e)" by (rule power_int_add [symmetric]) simp
  finally have "(2::rat) powi 1024 < 2 powi (bitlen m + e)" using le by simp
  then show "1024 < bitlen m + e" by (rule pow2_less_cancel)
qed

lemma round_magnitude_alt:
  "round_magnitude a =
     (let e = max (floor_log2 a - 52) (- 1074);
          v = of_int (round_half_even (a / 2 powi e)) * 2 powi e
      in if 2 powi 1024 \<le> v then None else Some v)"
proof -
  let ?e = "max (floor_log2 a - 52) (- 1074)"
  let ?m = "round_half_even (a / 2 powi ?e)"
  have "(0 < ?m \<and> 1024 < bitlen ?m + ?e) \<longleftrightarrow> (2::rat) powi 1024 \<le> of_int ?m * 2 powi ?e"
  proof (cases "0 < ?m")
    case True
    then show ?thesis by (simp only: overflow_iff [OF True] simp_thms)
  next
    case False
    then have "of_int ?m * (2::rat) powi ?e \<le> 0"
      by (intro mult_nonpos_nonneg) simp_all
    moreover have "(0::rat) < 2 powi 1024" by simp
    ultimately have "\<not> (2::rat) powi 1024 \<le> of_int ?m * 2 powi ?e" by linarith
    with False show ?thesis by simp
  qed
  then show ?thesis unfolding round_magnitude_def Let_def by simp
qed

lemma round_magnitude_fixed:
  assumes "0 < M" and "M < 2 ^ 53" and "- 1074 \<le> E"
    and "of_int M * 2 powi E < (2::rat) powi 1024"
  shows "round_magnitude (of_int M * 2 powi E) = Some (of_int M * 2 powi E)"
proof -
  let ?a = "of_int M * (2::rat) powi E"
  have apos: "0 < ?a" using assms(1) by simp
  let ?e = "max (floor_log2 ?a - 52) (- 1074)"
  have "2 powi floor_log2 ?a \<le> ?a" using apos by (rule floor_log2_bounds)
  also have "?a < 2 ^ 53 * 2 powi E"
  proof -
    have "(of_int M :: rat) < of_int (2 ^ 53)" using assms(2) by (simp only: of_int_less_iff)
    then have "(of_int M :: rat) < 2 ^ 53" by simp
    then show ?thesis by (intro mult_strict_right_mono) simp_all
  qed
  also have "\<dots> = 2 powi (53 + E)" by (simp add: power_int_add)
  finally have "floor_log2 ?a < 53 + E" by (rule pow2_less_cancel)
  with assms(3) have le: "?e \<le> E" by simp
  have "?a / 2 powi ?e = of_int M * 2 powi (E - ?e)"
    by (simp add: power_int_diff)
  also have "\<dots> = of_int M * 2 ^ nat (E - ?e)"
    using le by (simp add: power_int_nonneg_exp)
  also have "\<dots> = of_int (M * 2 ^ nat (E - ?e))" by simp
  finally have q: "?a / 2 powi ?e = of_int (M * 2 ^ nat (E - ?e))" .
  have "of_int (round_half_even (?a / 2 powi ?e)) * 2 powi ?e = (?a / 2 powi ?e) * 2 powi ?e"
    unfolding q round_half_even_of_int ..
  also have "\<dots> = ?a" by simp
  finally have v: "of_int (round_half_even (?a / 2 powi ?e)) * 2 powi ?e = ?a" .
  show ?thesis
    unfolding round_magnitude_alt Let_def v using assms(4) by simp
qed

lemma round_magnitude_idem:
  assumes "0 < a" and "round_magnitude a = Some v"
  shows "v = 0 \<or> (0 < v \<and> round_magnitude v = Some v)"
proof -
  let ?l = "floor_log2 a"
  let ?e = "max (?l - 52) (- 1074)"
  let ?m = "round_half_even (a / 2 powi ?e)"
  from assms(2) have v: "v = of_int ?m * 2 powi ?e" and fin: "v < 2 powi 1024"
    by (auto simp: round_magnitude_alt Let_def split: if_splits)
  have qpos: "0 < a / 2 powi ?e" using assms(1) by simp
  then have "0 \<le> \<lfloor>a / 2 powi ?e\<rfloor>" by simp
  with round_half_even_bounds(1) [of "a / 2 powi ?e"] have m0: "0 \<le> ?m" by linarith
  have "a < 2 powi (?l + 1)" using assms(1) by (rule floor_log2_bounds)
  also have "\<dots> = 2 powi (53 + (?l - 52))"
    by (rule arg_cong [where f = "\<lambda>k. 2 powi k"]) arith
  also have "\<dots> = 2 powi 53 * 2 powi (?l - 52)" by (rule power_int_add) simp
  also have "\<dots> = 2 ^ 53 * 2 powi (?l - 52)" by simp
  also have "\<dots> \<le> 2 ^ 53 * 2 powi ?e"
    by (intro mult_left_mono power_int_increasing) simp_all
  finally have "a / 2 powi ?e < 2 ^ 53" by (simp add: pos_divide_less_eq)
  then have "a / 2 powi ?e < of_int (2 ^ 53)" by simp
  then have "\<lfloor>a / 2 powi ?e\<rfloor> < 2 ^ 53" by (simp only: floor_less_iff)
  with round_half_even_bounds(2) [of "a / 2 powi ?e"] have m53: "?m \<le> 2 ^ 53" by linarith
  show ?thesis
  proof (cases "?m = 0")
    case True
    then show ?thesis by (simp add: v)
  next
    case False
    with m0 have mpos: "0 < ?m" by simp
    then have vpos: "0 < v" by (simp add: v)
    show ?thesis
    proof (cases "?m = 2 ^ 53")
      case False
      with m53 have "?m < 2 ^ 53" by simp
      from round_magnitude_fixed [OF mpos this, of ?e] fin show ?thesis
        using vpos by (simp add: v)
    next
      case True
      have v': "v = of_int (2 ^ 52) * 2 powi (?e + 1)"
        by (simp add: v True power_int_add)
      have "round_magnitude (of_int (2 ^ 52) * 2 powi (?e + 1)) = Some (of_int (2 ^ 52) * 2 powi (?e + 1))"
        using fin unfolding v' by (intro round_magnitude_fixed) simp_all
      with vpos v' show ?thesis by simp
    qed
  qed
qed

lemma round_double_zero [simp]: "round_double 0 = Num 0"
  by (simp add: round_double_def)

lemma round_double_idem:
  assumes "round_double r = Num r'"
  shows "round_double r' = Num r'"
proof (cases "r = 0")
  case True
  with assms show ?thesis by (simp add: round_double_def)
next
  case False
  then have "0 < \<bar>r\<bar>" by simp
  from assms False obtain v where rm: "round_magnitude \<bar>r\<bar> = Some v"
    and r': "r' = (if 0 < r then v else - v)"
    by (auto simp: round_double_def split: option.splits if_splits)
  from round_magnitude_idem [OF \<open>0 < \<bar>r\<bar>\<close> rm] show ?thesis
  proof
    assume "v = 0"
    then show ?thesis by (simp add: r')
  next
    assume "0 < v \<and> round_magnitude v = Some v"
    then show ?thesis by (simp add: r' round_double_def)
  qed
qed

lemma round_double_of_int:
  assumes "\<bar>n\<bar> \<le> 2 ^ 53"
  shows "round_double (of_int n) = Num (of_int n)"
proof (cases "n = 0")
  case True
  then show ?thesis by simp
next
  case False
  then have pos: "0 < \<bar>n\<bar>" by simp
  have "round_magnitude (of_int \<bar>n\<bar>) = Some (of_int \<bar>n\<bar>)"
  proof (cases "\<bar>n\<bar> = 2 ^ 53")
    case True
    have "round_magnitude (of_int (2 ^ 52) * 2 powi 1) = Some (of_int (2 ^ 52) * 2 powi 1)"
      by (intro round_magnitude_fixed) simp_all
    then show ?thesis by (simp add: True)
  next
    case False
    with assms have lt: "\<bar>n\<bar> < 2 ^ 53" by simp
    then have "(of_int \<bar>n\<bar> :: rat) < of_int (2 ^ 53)" by (simp only: of_int_less_iff)
    also have "\<dots> < 2 powi 1024" by simp
    finally have "of_int \<bar>n\<bar> * 2 powi 0 < (2::rat) powi 1024" by simp
    from round_magnitude_fixed [OF pos lt _ this] show ?thesis by simp
  qed
  then have "round_magnitude \<bar>of_int n :: rat\<bar> = Some \<bar>of_int n\<bar>" by simp
  then show ?thesis using False by (auto simp: round_double_def)
qed

subsection \<open>Exact sums and the ledger invariant\<close>

lemma round_double_integer:
  assumes "r \<in> \<int>" and "\<bar>r\<bar> \<le> 2 ^ 53"
  shows "round_double r = Num r"
proof -
  from assms(1) obtain n where r: "r = of_int n" by (auto elim: Ints_cases)
  with assms(2) have "(of_int \<bar>n\<bar> :: rat) \<le> of_int (2 ^ 53)" by simp
  then have "\<bar>n\<bar> \<le> 2 ^ 53" by (simp only: of_int_le_iff)
  then show ?thesis unfolding r by (rule round_double_of_int)
qed

lemma integer_amount_iff: "integer_amount v \<longleftrightarrow> (\<exists>r. v = Num r \<and> r \<in> \<int>)"
proof (cases v)
  case (Num r)
  have "of_int \<lfloor>r\<rfloor> = r \<longleftrightarrow> r \<in> \<int>"
    by (metis Ints_of_int Ints_cases floor_of_int)
  with Num show ?thesis by simp
qed simp_all

lemma js_sub_zero: "is_double x \<Longrightarrow> js_sub x (Num 0) = x"
  by (cases x) (simp_all add: js_sub_def is_double_def)

lemma js_add_is_double: "is_double (js_add x y)"
proof (cases "js_add x y")
  case (Num r)
  then obtain a b where "x = Num a" "y = Num b" "round_double (a + b) = Num r"
    by (cases x; cases y) simp_all
  then have "round_double r = Num r" by (intro round_double_idem)
  with Num show ?thesis by (simp add: is_double_def)
qed (simp_all add: is_double_def)

lemma js_sub_is_double: "is_double (js_sub x y)"
  unfolding js_sub_def by (rule js_add_is_double)

text \<open>Sums over the recorded reservations.\<close>

lemma magnitude_nonneg: "0 \<le> magnitude v"
  by (cases v) simp_all

lemma held_magnitude_nonneg: "0 \<le> held_magnitude al"
  by (induction al rule: held_magnitude.induct) (simp_all add: magnitude_nonneg)

lemma held_total_integer:
  "\<forall>v \<in> snd ` set al. integer_amount v \<Longrightarrow> held_total al \<in> \<int>"
  by (induction al rule: held_total.induct) (auto simp: integer_amount_iff)

lemma held_total_bound:
  "\<forall>v \<in> snd ` set al. integer_amount v \<Longrightarrow> \<bar>held_total al\<bar> \<le> held_magnitude al"
proof (induction al rule: held_total.induct)
  case 1
  then show ?case by simp
next
  case (2 k v al)
  then obtain r where "v = Num r" by (auto simp: integer_amount_iff)
  moreover from 2 have "\<bar>held_total al\<bar> \<le> held_magnitude al" by simp
  ultimately show ?case by simp
qed

lemma foldl_js_add_exact:
  assumes "\<forall>v \<in> snd ` set al. integer_amount v" and "s \<in> \<int>"
    and "\<bar>s\<bar> + held_magnitude al \<le> 2 ^ 53"
  shows "foldl js_add (Num s) (map snd al) = Num (s + held_total al)"
  using assms
proof (induction al arbitrary: s rule: held_total.induct)
  case 1
  then show ?case by simp
next
  case (2 k v al)
  from "2.prems"(1) obtain r where v: "v = Num r" and r: "r \<in> \<int>"
    by (auto simp: integer_amount_iff)
  have "\<bar>s + r\<bar> \<le> \<bar>s\<bar> + \<bar>r\<bar>" by simp
  with "2.prems"(3) held_magnitude_nonneg [of al]
  have b: "\<bar>s + r\<bar> \<le> 2 ^ 53" and b': "\<bar>s + r\<bar> + held_magnitude al \<le> 2 ^ 53"
    by (simp_all add: v)
  have step: "round_double (s + r) = Num (s + r)"
    using "2.prems"(2) r b by (intro round_double_integer Ints_add)
  have "foldl js_add (Num (s + r)) (map snd al) = Num ((s + r) + held_total al)"
    using "2.prems"(1,2) r b' by (intro "2.IH") simp_all
  then show ?case by (simp add: step v add.assoc)
qed

lemma update_fresh: "k \<notin> fst ` set al \<Longrightarrow> AList.update k v al = al @ [(k, v)]"
  by (induction al) auto

lemma held_append:
  "held_total (al @ [(k, v)]) = held_total al + finite_value v"
  "held_magnitude (al @ [(k, v)]) = held_magnitude al + magnitude v"
  by (induction al rule: held_total.induct) simp_all

lemma usage_or_zero_same:
  "finite_value (usage_or_zero (Some v)) = finite_value v"
  "magnitude (usage_or_zero (Some v)) = magnitude v"
  by (cases v; simp)+

lemma delete_total:
  "distinct (map fst al) \<Longrightarrow>
   held_total (AList.delete k al) = held_total al - finite_value (usage_or_zero (map_of al k))"
proof (induction al rule: held_total.induct)
  case 1
  then show ?case by simp
next
  case (2 k' v al)
  show ?case
  proof (cases "k' = k")
    case True
    with "2.prems" have "k \<notin> fst ` set al" by auto
    then have "AList.delete k al = al" by simp
    with True show ?thesis by (simp add: usage_or_zero_same)
  next
    case False
    with 2 show ?thesis by simp
  qed
qed

lemma delete_magnitude:
  "distinct (map fst al) \<Longrightarrow>
   held_magnitude (AList.delete k al) = held_magnitude al - magnitude (usage_or_zero (map_of al k))"
proof (induction al rule: held_magnitude.induct)
  case 1
  then show ?case by simp
next
  case (2 k' v al)
  show ?case
  proof (cases "k' = k")
    case True
    with "2.prems" have "k \<notin> fst ` set al" by auto
    then have "AList.delete k al = al" by simp
    with True show ?thesis by (simp add: usage_or_zero_same)
  next
    case False
    with 2 show ?thesis by simp
  qed
qed

lemma usage_or_zero_integer:
  assumes "\<forall>v \<in> snd ` set al. integer_amount v"
  shows "\<exists>r. usage_or_zero (map_of al k) = Num r \<and> r \<in> \<int>"
proof (cases "map_of al k")
  case None
  then show ?thesis by simp
next
  case (Some v)
  then have "(k, v) \<in> set al" by (rule map_of_SomeD)
  then have "v \<in> snd ` set al" by force
  with assms obtain r where "v = Num r" "r \<in> \<int>" by (auto simp: integer_amount_iff)
  with Some show ?thesis by simp
qed

lemma ledger_inv_new: "ledger_inv (new_WaveManager c)"
  by (simp add: ledger_inv_def new_WaveManager_def)

lemma ledger_inv_sum:
  assumes "ledger_inv this"
  shows "reserved_sum this = usedCapacity (contextMonitor this)"
proof -
  let ?wu = "waveUsage (contextMonitor this)"
  from assms have ints: "\<forall>v \<in> snd ` set ?wu. integer_amount v"
    and bound: "held_magnitude ?wu \<le> 2 ^ 53"
    and used: "usedCapacity (contextMonitor this) = Num (held_total ?wu)"
    by (simp_all add: ledger_inv_def)
  from foldl_js_add_exact [OF ints, of 0] bound
  have "foldl js_add (Num 0) (map snd ?wu) = Num (held_total ?wu)"
    by simp
  with used show ?thesis by (simp add: reserved_sum_def)
qed

lemma ledger_inv_update:
  assumes "ledger_inv this" and "waveId \<notin> fst ` set (waveUsage (contextMonitor this))"
    and "integer_amount usage"
    and "held_magnitude (waveUsage (contextMonitor this)) + magnitude usage \<le> 2 ^ 53"
  shows "ledger_inv (updateContextUsage waveId usage this)"
proof -
  let ?wu = "waveUsage (contextMonitor this)"
  from assms(3) obtain b where u: "usage = Num b" and b: "b \<in> \<int>"
    by (auto simp: integer_amount_iff)
  from assms(1) have ints: "\<forall>v \<in> snd ` set ?wu. integer_amount v"
    and used: "usedCapacity (contextMonitor this) = Num (held_total ?wu)"
    and dist: "distinct (map fst ?wu)"
    by (simp_all add: ledger_inv_def)
  note S = held_total_integer [OF ints] held_total_bound [OF ints]
  have "\<bar>held_total ?wu + b\<bar> \<le> \<bar>held_total ?wu\<bar> + \<bar>b\<bar>" by simp
  with S(2) assms(4) have "\<bar>held_total ?wu + b\<bar> \<le> 2 ^ 53" by (simp add: u)
  with S(1) b have add: "round_double (held_total ?wu + b) = Num (held_total ?wu + b)"
    by (intro round_double_integer Ints_add)
  have wu': "waveUsage (contextMonitor (updateContextUsage waveId usage this)) = ?wu @ [(waveId, usage)]"
    by (simp add: updateContextUsage_def Let_def update_fresh [OF assms(2)])
  have used': "usedCapacity (contextMonitor (updateContextUsage waveId usage this)) = Num (held_total ?wu + b)"
    by (simp add: updateContextUsage_def Let_def used u add)
  show ?thesis
    unfolding ledger_inv_def wu' used' held_append
    using dist assms(2,3,4) ints by (auto simp: u)
qed

lemma ledger_inv_release:
  assumes "ledger_inv this"
  shows "ledger_inv (releaseContextUsage waveId this)"
proof -
  let ?wu = "waveUsage (contextMonitor this)"
  from assms have ints: "\<forall>v \<in> snd ` set ?wu. integer_amount v"
    and used: "usedCapacity (contextMonitor this) = Num (held_total ?wu)"
    and dist: "distinct (map fst ?wu)"
    and bound: "held_magnitude ?wu \<le> 2 ^ 53"
    by (simp_all add: ledger_inv_def)
  from usage_or_zero_integer [OF ints, of waveId] obtain r where
    r: "usage_or_zero (map_of ?wu waveId) = Num r" "r \<in> \<int>" by blast
  let ?wu' = "AList.delete waveId ?wu"
  have ints': "\<forall>v \<in> snd ` set ?wu'. integer_amount v"
    using ints by (auto simp: AList.delete_eq)
  from delete_total [OF dist, of waveId] delete_magnitude [OF dist, of waveId] r(1)
  have S': "held_total ?wu' = held_total ?wu - r"
    and H': "held_magnitude ?wu' = held_magnitude ?wu - \<bar>r\<bar>"
    by simp_all
  from held_total_bound [OF ints'] S' H' have "\<bar>held_total ?wu - r\<bar> \<le> held_magnitude ?wu - \<bar>r\<bar>"
    by simp
  with bound have le: "\<bar>held_total ?wu - r\<bar> \<le> 2 ^ 53" "held_magnitude ?wu - \<bar>r\<bar> \<le> 2 ^ 53" by simp_all
  with held_total_integer [OF ints] r(2)
  have sub: "round_double (held_total ?wu - r) = Num (held_total ?wu - r)"
    by (intro round_double_integer Ints_diff)
  have wu': "waveUsage (contextMonitor (releaseContextUsage waveId this)) = ?wu'"
    by (simp add: releaseContextUsage_def Let_def)
  have used': "usedCapacity (contextMonitor (releaseContextUsage waveId this)) = Num (held_total ?wu - r)"
    by (simp add: releaseContextUsage_def Let_def used r(1) js_sub_def sub)
  show ?thesis
    unfolding ledger_inv_def wu' used'
    using dist ints' S' H' le(2) by (simp add: distinct_delete)
qed

lemma ledger_inv_run:
  "ledger_inv this \<Longrightarrow> reserves_exactly this ops \<Longrightarrow> ledger_inv (run_ledger_ops this ops)"
proof (induction ops arbitrary: this)
  case Nil
  then show ?case by (simp add: run_ledger_ops_def)
next
  case (Cons op ops)
  show ?case
  proof (cases op)
    case (Reserve w a)
    with Cons.prems have "ledger_inv (updateContextUsage w a this)"
      and "reserves_exactly (updateContextUsage w a this) ops"
      by (auto intro: ledger_inv_update)
    then have "ledger_inv (run_ledger_ops (updateContextUsage w a this) ops)"
      by (rule Cons.IH)
    with Reserve show ?thesis by (simp add: run_ledger_ops_def)
  next
    case (Release w)
    with Cons.prems have "ledger_inv (releaseContextUsage w this)"
      and "reserves_exactly (releaseContextUsage w this) ops"
      by (auto intro: ledger_inv_release)
    then have "ledger_inv (run_ledger_ops (releaseContextUsage w this) ops)"
      by (rule Cons.IH)
    with Release show ?thesis by (simp add: run_ledger_ops_def)
  qed
qed

subsection \<open>The claims about the ledger\<close>

text \<open>
  C1, counterexample. With 6000 of 10000 used, reserving 5000 more for wave B exceeds
  the total. The call is not refused and the ledger is not left alone: 11000 are used
  afterwards and wave B is recorded.
\<close>

theorem reserve_over_capacity_counterexample:
  "usedCapacity (contextMonitor scenario_ledger) = Num 6000
   \<and> totalCapacity (contextMonitor scenario_ledger) = Num 10000
   \<and> (10000::rat) < 6000 + 5000
   \<and> updateContextUsage ''waveB'' (Num 5000) scenario_ledger \<noteq> scenario_ledger
   \<and> usedCapacity (contextMonitor (updateContextUsage ''waveB'' (Num 5000) scenario_ledger)) = Num 11000
   \<and> waveUsage (contextMonitor (updateContextUsage ''waveB'' (Num 5000) scenario_ledger))
       = [(''waveA'', Num 6000), (''waveB'', Num 5000)]"
proof -
  have a: "usedCapacity (contextMonitor scenario_ledger) = Num 6000"
    "totalCapacity (contextMonitor scenario_ledger) = Num 10000"
    "usedCapacity (contextMonitor (updateContextUsage ''waveB'' (Num 5000) scenario_ledger)) = Num 11000"
    "waveUsage (contextMonitor (updateContextUsage ''waveB'' (Num 5000) scenario_ledger))
       = [(''waveA'', Num 6000), (''waveB'', Num 5000)]"
    by code_simp+
  from a(1,3) have "updateContextUsage ''waveB'' (Num 5000) scenario_ledger \<noteq> scenario_ledger"
    by auto
  with a show ?thesis by simp
qed

text \<open>
  C1, as amended. \<open>updateContextUsage\<close> has no capacity check and no failure path: for
  every wave id and amount it records the amount for the wave, replaces the used
  capacity by the double-precision sum of it and the amount, leaves the total alone and
  recomputes the remaining capacity as the double-precision difference, also when the
  sum exceeds the total. The sum is the exact one when the used capacity and the amount
  are integers and the sum is at most \<open>2^53\<close> in magnitude.
\<close>

theorem reserve_never_refuses:
  "usedCapacity (contextMonitor (updateContextUsage waveId amount this))
     = js_add (usedCapacity (contextMonitor this)) amount
   \<and> map_of (waveUsage (contextMonitor (updateContextUsage waveId amount this))) waveId = Some amount
   \<and> totalCapacity (contextMonitor (updateContextUsage waveId amount this))
     = totalCapacity (contextMonitor this)
   \<and> remainingCapacity (contextMonitor (updateContextUsage waveId amount this))
     = js_sub (totalCapacity (contextMonitor this)) (js_add (usedCapacity (contextMonitor this)) amount)
   \<and> (\<forall>a b. usedCapacity (contextMonitor this) = Num (of_int a) \<and> amount = Num (of_int b)
          \<and> \<bar>a + b\<bar> \<le> 2 ^ 53
        \<longrightarrow> usedCapacity (contextMonitor (updateContextUsage waveId amount this)) = Num (of_int (a + b)))"
proof -
  have exact: "usedCapacity (contextMonitor (updateContextUsage waveId amount this)) = Num (of_int (a + b))"
    if "usedCapacity (contextMonitor this) = Num (of_int a)" "amount = Num (of_int b)"
      "\<bar>a + b\<bar> \<le> 2 ^ 53" for a b
  proof -
    from that(3) have "round_double (of_int (a + b)) = Num (of_int (a + b))"
      by (rule round_double_of_int)
    with that(1,2) show ?thesis by (simp add: updateContextUsage_def Let_def)
  qed
  show ?thesis
    using exact by (simp add: updateContextUsage_def Let_def update_conv')
qed

text \<open>C1, witness: 5000 more on the ledger that holds 6000.\<close>

theorem reserve_never_refuses_witness:
  "usedCapacity (contextMonitor scenario_ledger) = Num (of_int 6000)
   \<and> Num 5000 = Num (of_int 5000) \<and> \<bar>6000 + 5000 :: int\<bar> \<le> 2 ^ 53
   \<and> usedCapacity (contextMonitor (updateContextUsage ''waveB'' (Num 5000) scenario_ledger))
        = Num (of_int (6000 + 5000))
   \<and> map_of (waveUsage (contextMonitor (updateContextUsage ''waveB'' (Num 5000) scenario_ledger))) ''waveB''
        = Some (Num 5000)"
proof -
  have a: "usedCapacity (contextMonitor scenario_ledger) = Num (of_int 6000)" by code_simp
  have b: "Num 5000 = Num (of_int 5000)" by simp
  have c: "\<bar>6000 + 5000 :: int\<bar> \<le> 2 ^ 53" by simp
  from reserve_never_refuses [of "''waveB''" "Num 5000" scenario_ledger] a b c
  have "usedCapacity (contextMonitor (updateContextUsage ''waveB'' (Num 5000) scenario_ledger))
        = Num (of_int (6000 + 5000))"
    and "map_of (waveUsage (contextMonitor (updateContextUsage ''waveB'' (Num 5000) scenario_ledger))) ''waveB''
        = Some (Num 5000)"
    by blast+
  with a b c show ?thesis by blast
qed

text \<open>
  C2. \<open>shouldTriggerGracefulShutdown\<close> compares the stored utilisation, which is a
  percentage (used / total * 100), with a threshold that its default (0.9) and its
  callers give as a fraction. With 7500 of 100000 used the stored utilisation is 7.5, and
  with the threshold 0.9 the answer is true, although used / total is 0.075 and lies
  below 0.9.
\<close>

theorem shutdown_threshold_units:
  "shouldTriggerGracefulShutdown (9 / 10) (updateContextUsage ''w'' (Num 7500) (new_WaveManager 100000))
   \<and> utilizationPercentage (contextMonitor (updateContextUsage ''w'' (Num 7500) (new_WaveManager 100000)))
       = Num (15 / 2)
   \<and> usedCapacity (contextMonitor (updateContextUsage ''w'' (Num 7500) (new_WaveManager 100000)))
       = Num 7500
   \<and> totalCapacity (contextMonitor (updateContextUsage ''w'' (Num 7500) (new_WaveManager 100000)))
       = Num 100000
   \<and> (7500 / 100000 :: rat) < 9 / 10"
  by code_simp

text \<open>
  C5, counterexample. Reserving twice for the same wave overwrites its entry but adds
  both amounts: after reserving 5 and then 7 for wave a, the entries sum to 7 and the
  used capacity is 12.
\<close>

theorem ledger_sum_counterexample:
  "reserved_sum (run_ledger_ops (new_WaveManager 10000) [Reserve ''a'' (Num 5), Reserve ''a'' (Num 7)]) = Num 7
   \<and> usedCapacity (contextMonitor (run_ledger_ops (new_WaveManager 10000)
        [Reserve ''a'' (Num 5), Reserve ''a'' (Num 7)])) = Num 12"
  by code_simp

text \<open>
  Rounding breaks the sum as well: with \<open>2^53\<close> held, reserving 1 leaves the used capacity
  at \<open>2^53\<close>, and releasing the 1 takes it to \<open>2^53 - 1\<close>, while the entry left is \<open>2^53\<close>.
\<close>

lemma ledger_sum_rounding_example:
  "reserved_sum (run_ledger_ops (new_WaveManager 10000)
      [Reserve ''a'' (Num 9007199254740992), Reserve ''b'' (Num 1), Release ''b'']) = Num 9007199254740992
   \<and> usedCapacity (contextMonitor (run_ledger_ops (new_WaveManager 10000)
      [Reserve ''a'' (Num 9007199254740992), Reserve ''b'' (Num 1), Release ''b''])) = Num 9007199254740991"
  by code_simp

text \<open>
  C5, as amended. From the initial ledger, after any sequence of reserve and release
  operations in which no reserve names a wave that holds a reservation at that moment,
  every reserved amount is an integer and the magnitudes of the reservations held never
  add up to more than \<open>2^53\<close>, the reservations recorded in \<open>waveUsage\<close> sum to
  \<open>usedCapacity\<close>.
\<close>

theorem ledger_sum_invariant:
  "reserves_exactly (new_WaveManager c) ops \<Longrightarrow>
   reserved_sum (run_ledger_ops (new_WaveManager c) ops)
     = usedCapacity (contextMonitor (run_ledger_ops (new_WaveManager c) ops))"
  by (intro ledger_inv_sum ledger_inv_run ledger_inv_new)

text \<open>C5, witness: reserve A, release A, reserve B, reserve C.\<close>

theorem ledger_sum_invariant_witness:
  "reserves_exactly (new_WaveManager 10000)
     [Reserve ''waveA'' (Num 6000), Release ''waveA'', Reserve ''waveB'' (Num 5000), Reserve ''waveC'' (Num 1)]
   \<and> reserved_sum (run_ledger_ops (new_WaveManager 10000)
        [Reserve ''waveA'' (Num 6000), Release ''waveA'', Reserve ''waveB'' (Num 5000), Reserve ''waveC'' (Num 1)])
     = usedCapacity (contextMonitor (run_ledger_ops (new_WaveManager 10000)
        [Reserve ''waveA'' (Num 6000), Release ''waveA'', Reserve ''waveB'' (Num 5000), Reserve ''waveC'' (Num 1)]))
   \<and> reserved_sum (run_ledger_ops (new_WaveManager 10000)
        [Reserve ''waveA'' (Num 6000), Release ''waveA'', Reserve ''waveB'' (Num 5000), Reserve ''waveC'' (Num 1)])
     = Num 5001"
proof -
  have h: "reserves_exactly (new_WaveManager 10000)
     [Reserve ''waveA'' (Num 6000), Release ''waveA'', Reserve ''waveB'' (Num 5000), Reserve ''waveC'' (Num 1)]"
    by code_simp
  have v: "reserved_sum (run_ledger_ops (new_WaveManager 10000)
        [Reserve ''waveA'' (Num 6000), Release ''waveA'', Reserve ''waveB'' (Num 5000), Reserve ''waveC'' (Num 1)])
     = Num 5001"
    by code_simp
  from h v ledger_sum_invariant [OF h] show ?thesis by simp
qed

text \<open>
  C6, counterexample. With \<open>2^53\<close> used, reserving 1 for wave B leaves the used capacity
  at \<open>2^53\<close> (the sum is rounded), and releasing wave B takes it to \<open>2^53 - 1\<close>: the value
  before the reserve is not restored.
\<close>

theorem release_rounding_counterexample:
  "usedCapacity (contextMonitor brimful_ledger) = Num 9007199254740992
   \<and> usedCapacity (contextMonitor
        (releaseContextUsage ''waveB'' (updateContextUsage ''waveB'' (Num 1) brimful_ledger)))
       = Num 9007199254740991"
  by code_simp

lemma map_of_delete_self: "map_of (AList.delete k al) k = None"
  by (simp add: delete_conv')

text \<open>
  C6, as amended. In every ledger state: releasing a wave right after reserving for it
  restores the used capacity when the used capacity and the amount are integers and
  neither the used capacity nor its sum with the amount exceeds \<open>2^53\<close> in magnitude;
  releasing a wave that is not in \<open>waveUsage\<close> leaves the used capacity (a double)
  unchanged; and a second release of the same wave leaves the used capacity as the
  first release left it.
\<close>

theorem release_restores:
  "(\<forall>a b. usedCapacity (contextMonitor this) = Num (of_int a) \<and> amount = Num (of_int b)
          \<and> \<bar>a\<bar> \<le> 2 ^ 53 \<and> \<bar>a + b\<bar> \<le> 2 ^ 53
        \<longrightarrow> usedCapacity (contextMonitor (releaseContextUsage waveId (updateContextUsage waveId amount this)))
              = usedCapacity (contextMonitor this))
   \<and> (waveId \<notin> fst ` set (waveUsage (contextMonitor this)) \<and> is_double (usedCapacity (contextMonitor this))
        \<longrightarrow> usedCapacity (contextMonitor (releaseContextUsage waveId this)) = usedCapacity (contextMonitor this))
   \<and> usedCapacity (contextMonitor (releaseContextUsage waveId (releaseContextUsage waveId this)))
     = usedCapacity (contextMonitor (releaseContextUsage waveId this))"
proof (intro conjI allI impI)
  fix a b
  assume h: "usedCapacity (contextMonitor this) = Num (of_int a) \<and> amount = Num (of_int b)
          \<and> \<bar>a\<bar> \<le> 2 ^ 53 \<and> \<bar>a + b\<bar> \<le> 2 ^ 53"
  then have r1: "round_double (of_int (a + b)) = Num (of_int (a + b))"
    and r2: "round_double (of_int a) = Num (of_int a)"
    by (simp_all only: round_double_of_int)
  have u: "usage_or_zero (Some (Num (of_int b))) = Num (of_int b)" by simp
  from h r1 have used1: "usedCapacity (contextMonitor (updateContextUsage waveId amount this)) = Num (of_int (a + b))"
    by (simp add: updateContextUsage_def Let_def)
  have look: "map_of (waveUsage (contextMonitor (updateContextUsage waveId amount this))) waveId = Some amount"
    by (simp add: updateContextUsage_def Let_def update_conv')
  have "usedCapacity (contextMonitor (releaseContextUsage waveId (updateContextUsage waveId amount this)))
          = js_sub (usedCapacity (contextMonitor (updateContextUsage waveId amount this)))
              (usage_or_zero (map_of (waveUsage (contextMonitor (updateContextUsage waveId amount this))) waveId))"
    by (simp add: releaseContextUsage_def [of waveId "updateContextUsage waveId amount this"] Let_def)
  also have "\<dots> = js_sub (Num (of_int (a + b))) (usage_or_zero (Some amount))"
    by (simp only: used1 look)
  also have "\<dots> = js_sub (Num (of_int (a + b))) (Num (of_int b))"
    using h u by simp
  also have "\<dots> = Num (of_int a)" using r2 by (simp add: js_sub_def)
  finally show "usedCapacity (contextMonitor (releaseContextUsage waveId (updateContextUsage waveId amount this)))
              = usedCapacity (contextMonitor this)"
    using h by simp
next
  assume h: "waveId \<notin> fst ` set (waveUsage (contextMonitor this)) \<and> is_double (usedCapacity (contextMonitor this))"
  then have "map_of (waveUsage (contextMonitor this)) waveId = None"
    by (simp add: map_of_eq_None_iff)
  with h show "usedCapacity (contextMonitor (releaseContextUsage waveId this)) = usedCapacity (contextMonitor this)"
    by (simp add: releaseContextUsage_def Let_def js_sub_zero)
next
  have d: "is_double (usedCapacity (contextMonitor (releaseContextUsage waveId this)))"
    by (simp add: releaseContextUsage_def Let_def js_sub_is_double)
  have "map_of (waveUsage (contextMonitor (releaseContextUsage waveId this))) waveId = None"
    by (simp add: releaseContextUsage_def Let_def map_of_delete_self)
  then have "usedCapacity (contextMonitor (releaseContextUsage waveId (releaseContextUsage waveId this)))
      = js_sub (usedCapacity (contextMonitor (releaseContextUsage waveId this))) (Num 0)"
    by (simp add: releaseContextUsage_def [of waveId "releaseContextUsage waveId this"] Let_def)
  with d show "usedCapacity (contextMonitor (releaseContextUsage waveId (releaseContextUsage waveId this)))
     = usedCapacity (contextMonitor (releaseContextUsage waveId this))"
    by (simp add: js_sub_zero)
qed

text \<open>
  C6, witness: on the ledger with wave A at 6000, reserving 5000 for wave B and
  releasing it, releasing the unknown wave B, and releasing wave A twice.
\<close>

theorem release_restores_witness:
  "usedCapacity (contextMonitor scenario_ledger) = Num (of_int 6000)
   \<and> Num 5000 = Num (of_int 5000) \<and> \<bar>6000 :: int\<bar> \<le> 2 ^ 53 \<and> \<bar>6000 + 5000 :: int\<bar> \<le> 2 ^ 53
   \<and> ''waveB'' \<notin> fst ` set (waveUsage (contextMonitor scenario_ledger))
   \<and> is_double (usedCapacity (contextMonitor scenario_ledger))
   \<and> usedCapacity (contextMonitor
        (releaseContextUsage ''waveB'' (updateContextUsage ''waveB'' (Num 5000) scenario_ledger))) = Num 6000
   \<and> usedCapacity (contextMonitor (releaseContextUsage ''waveB'' scenario_ledger)) = Num 6000
   \<and> usedCapacity (contextMonitor (releaseContextUsage ''waveA'' (releaseContextUsage ''waveA'' scenario_ledger)))
       = usedCapacity (contextMonitor (releaseContextUsage ''waveA'' scenario_ledger))"
proof -
  have a: "usedCapacity (contextMonitor scenario_ledger) = Num (of_int 6000)" by code_simp
  have b: "Num 5000 = Num (of_int 5000)" by simp
  have c: "\<bar>6000 :: int\<bar> \<le> 2 ^ 53" "\<bar>6000 + 5000 :: int\<bar> \<le> 2 ^ 53" by simp_all
  have d: "''waveB'' \<notin> fst ` set (waveUsage (contextMonitor scenario_ledger))" by code_simp
  have e: "is_double (usedCapacity (contextMonitor scenario_ledger))" by code_simp
  note r = release_restores [of scenario_ledger "Num 5000" "''waveB''"]
  from r a b c have 1: "usedCapacity (contextMonitor
        (releaseContextUsage ''waveB'' (updateContextUsage ''waveB'' (Num 5000) scenario_ledger)))
      = usedCapacity (contextMonitor scenario_ledger)" by blast
  from r d e have 2: "usedCapacity (contextMonitor (releaseContextUsage ''waveB'' scenario_ledger))
      = usedCapacity (contextMonitor scenario_ledger)" by blast
  from release_restores [of scenario_ledger "Num 5000" "''waveA''"]
  have 3: "usedCapacity (contextMonitor (releaseContextUsage ''waveA'' (releaseContextUsage ''waveA'' scenario_ledger)))
       = usedCapacity (contextMonitor (releaseContextUsage ''waveA'' scenario_ledger))" by blast
  from a b c d e 1 2 3 show ?thesis by simp
qed

section \<open>Planning: properties\<close>

lemma distinct_set_add: "distinct s \<Longrightarrow> distinct (set_add x s)"
  by (simp add: set_add_def)

lemma set_set_add: "set (set_add x s) = insert x (set s)"
  by (auto simp: set_add_def)

lemma existing_inner:
  "distinct s \<Longrightarrow> distinct (foldl (\<lambda>used dim. set_add (Some dim) used) s ds)
     \<and> set (foldl (\<lambda>used dim. set_add (Some dim) used) s ds) = set s \<union> Some ` set ds"
  by (induction ds arbitrary: s) (auto simp: distinct_set_add set_set_add)

lemma existing_outer:
  "distinct s \<Longrightarrow>
   distinct (foldl (\<lambda>used iteration.
              foldl (\<lambda>used dim. set_add (Some dim) used) used (innovationDimensions_iter iteration)) s its)
   \<and> set (foldl (\<lambda>used iteration.
              foldl (\<lambda>used dim. set_add (Some dim) used) used (innovationDimensions_iter iteration)) s its)
      = set s \<union> Some ` (\<Union>it\<in>set its. set (innovationDimensions_iter it))"
proof (induction its arbitrary: s)
  case Nil
  then show ?case by simp
next
  case (Cons it its)
  from existing_inner [OF Cons.prems, of "innovationDimensions_iter it"]
  have d: "distinct (foldl (\<lambda>used dim. set_add (Some dim) used) s (innovationDimensions_iter it))"
    and s: "set (foldl (\<lambda>used dim. set_add (Some dim) used) s (innovationDimensions_iter it))
              = set s \<union> Some ` set (innovationDimensions_iter it)"
    by simp_all
  from Cons.IH [OF d] s show ?case by (auto simp: image_Un)
qed

lemma existingDimensions_distinct: "distinct (existingDimensions existing)"
  using existing_outer [of "[]" existing] by (simp add: existingDimensions_def)

lemma existingDimensions_set:
  "set (existingDimensions existing) = Some ` (\<Union>it\<in>set existing. set (innovationDimensions_iter it))"
  using existing_outer [of "[]" existing] by (simp add: existingDimensions_def)

lemma existingDimensions_length:
  "length (existingDimensions existing) = card (\<Union>it\<in>set existing. set (innovationDimensions_iter it))"
proof -
  have "length (existingDimensions existing) = card (set (existingDimensions existing))"
    using existingDimensions_distinct by (simp add: distinct_card)
  also have "\<dots> = card (\<Union>it\<in>set existing. set (innovationDimensions_iter it))"
    by (simp add: existingDimensions_set card_image)
  finally show ?thesis .
qed

lemma fresh_dimension_exists:
  assumes "distinct dims" and "length used < length dims"
  shows "\<exists>d\<in>set dims. Some d \<notin> set used"
proof (rule ccontr)
  assume "\<not> ?thesis"
  then have "Some ` set dims \<subseteq> set used" by auto
  then have "card (Some ` set dims) \<le> card (set used)" by (simp add: card_mono)
  moreover have "card (Some ` set dims) = length dims"
    using assms(1) by (simp add: card_image distinct_card)
  moreover have "card (set used) \<le> length used" by (rule card_length)
  ultimately show False using assms(2) by simp
qed

lemma selectFocus_fresh:
  assumes "distinct dims" and "length used < length dims" and "0 \<le> i"
  shows "\<exists>d. selectFocus (availableDimensions dims used) i = Some d \<and> d \<in> set dims
             \<and> Some d \<notin> set used"
proof -
  let ?av = "availableDimensions dims used"
  have av: "?av = filter (\<lambda>dim. Some dim \<notin> set used) dims"
    using assms(2) by (simp add: availableDimensions_def)
  from fresh_dimension_exists [OF assms(1,2)] have ne: "?av \<noteq> []"
    by (simp add: av filter_empty_conv)
  then have "nat i mod length ?av < length ?av" by simp
  then have "?av ! (nat i mod length ?av) \<in> set ?av" by (rule nth_mem)
  then have "?av ! (nat i mod length ?av) \<in> set dims \<and> Some (?av ! (nat i mod length ?av)) \<notin> set used"
    by (simp add: av)
  with ne show ?thesis by (simp add: selectFocus_def)
qed

lemma loop_foci_distinct:
  shows "distinct (innovationDimensions spec) \<Longrightarrow> 0 \<le> i \<Longrightarrow> distinct used
     \<Longrightarrow> distinct (map (\<lambda>a. innovationFocus (uniqueDirective a)) assignments)
     \<Longrightarrow> set (map (\<lambda>a. innovationFocus (uniqueDirective a)) assignments) \<subseteq> set used
     \<Longrightarrow> int (length used) + (waveSize - i) \<le> int (length (innovationDimensions spec))
     \<Longrightarrow> distinct (map (\<lambda>a. innovationFocus (uniqueDirective a))
           (generateAgentAssignments_loop uuids spec waveSize existing lvl i assignments used))"
proof (induction uuids spec waveSize existing lvl i assignments used
        rule: generateAgentAssignments_loop.induct)
  case (1 uuids spec waveSize existing lvl i assignments used)
  show ?case
  proof (cases "i < waveSize")
    case False
    then show ?thesis using "1.prems" by (simp add: generateAgentAssignments_loop.simps)
  next
    case True
    let ?f = "selectFocus (availableDimensions (innovationDimensions spec) used) i"
    let ?a = "makeAssignment (uuids (nat i + 1)) spec existing lvl i ?f"
    from True "1.prems"(6) have lt: "length used < length (innovationDimensions spec)" by simp
    from selectFocus_fresh [OF "1.prems"(1) lt "1.prems"(2)]
    obtain d where d: "?f = Some d" "Some d \<notin> set used" by blast
    have add: "set_add ?f used = used @ [?f]" using d by (simp add: set_add_def)
    have foci: "map (\<lambda>a. innovationFocus (uniqueDirective a)) (assignments @ [?a])
                  = map (\<lambda>a. innovationFocus (uniqueDirective a)) assignments @ [?f]"
      by (simp add: makeAssignment_def Let_def)
    have "distinct (map (\<lambda>a. innovationFocus (uniqueDirective a))
           (generateAgentAssignments_loop uuids spec waveSize existing lvl (i + 1)
              (assignments @ [?a]) (set_add ?f used)))"
    proof (rule "1.IH" [OF True])
      show "distinct (innovationDimensions spec)" by (rule "1.prems"(1))
      show "0 \<le> i + 1" using "1.prems"(2) by simp
      show "distinct (set_add ?f used)" using "1.prems"(3) by (rule distinct_set_add)
      show "distinct (map (\<lambda>a. innovationFocus (uniqueDirective a)) (assignments @ [?a]))"
        using "1.prems"(4,5) d unfolding foci by auto
      show "set (map (\<lambda>a. innovationFocus (uniqueDirective a)) (assignments @ [?a])) \<subseteq> set (set_add ?f used)"
        using "1.prems"(5) unfolding foci add by auto
      show "int (length (set_add ?f used)) + (waveSize - (i + 1)) \<le> int (length (innovationDimensions spec))"
        using "1.prems"(6) by (simp add: add)
    qed
    with True show ?thesis by (subst generateAgentAssignments_loop.simps) simp
  qed
qed

lemma assignedFocus_eq: "assignedFocus = (\<lambda>a. innovationFocus (uniqueDirective a))"
  by (rule ext) (simp add: assignedFocus_def)

lemma planWave_fields:
  "agentAssignments (waveConfiguration (planWave uuids this spec mode existing lvl out))
     = generateAgentAssignments uuids spec (calculateWaveSize mode (int (length existing))) existing lvl out"
  "agentAssignments_plan (planWave uuids this spec mode existing lvl out)
     = generateAgentAssignments uuids spec (calculateWaveSize mode (int (length existing))) existing lvl out"
  "targetIterations (waveConfiguration (planWave uuids this spec mode existing lvl out))
     = calculateWaveSize mode (int (length existing))"
  "maxConcurrency (waveConfiguration (planWave uuids this spec mode existing lvl out))
     = min (calculateWaveSize mode (int (length existing))) 5"
  "status (waveConfiguration (planWave uuids this spec mode existing lvl out)) = PLANNED"
  "results (waveConfiguration (planWave uuids this spec mode existing lvl out)) = None"
  by (simp_all add: planWave_def Let_def)

text \<open>
  C8. The wave size is 1 for \<open>SINGLE\<close>; for \<open>BATCH\<close> with a numeric count it is the smaller
  of count - existingCount and the batch size, with 5 in place of a batch size that is
  absent (or zero, which \<open>||\<close> treats alike); it is 5 for \<open>INFINITE\<close> and for \<open>BATCH\<close> with
  the count \<open>INFINITE\<close>. A batch of count 7 and batch size 5 with nothing existing gives 5.
\<close>

theorem wave_size_by_mode:
  "calculateWaveSize \<lparr>type_mode = SINGLE, count_mode = c, batchSize = b, maxWaves = w\<rparr> existingCount = 1
   \<and> calculateWaveSize \<lparr>type_mode = BATCH, count_mode = Count n, batchSize = b, maxWaves = w\<rparr> existingCount
       = min (n - existingCount) (case b of None \<Rightarrow> 5 | Some s \<Rightarrow> if s = 0 then 5 else s)
   \<and> calculateWaveSize \<lparr>type_mode = INFINITE, count_mode = c, batchSize = b, maxWaves = w\<rparr> existingCount = 5
   \<and> calculateWaveSize \<lparr>type_mode = BATCH, count_mode = INFINITE_count, batchSize = b, maxWaves = w\<rparr> existingCount = 5
   \<and> calculateWaveSize \<lparr>type_mode = BATCH, count_mode = Count 7, batchSize = Some 5, maxWaves = w\<rparr> 0 = 5"
  by (simp add: calculateWaveSize_def batchSize_or_default_def)

text \<open>
  C4, counterexample. The pool has three dimensions and the wave three assignments, but
  the one existing iteration already used \<open>layout\<close>: the first two assignments get
  \<open>color\<close> and \<open>motion\<close>, the used set then covers the pool, the filter lets every
  dimension through again and the third assignment gets \<open>motion\<close> a second time.
\<close>

theorem focus_collision_counterexample:
  "targetIterations (waveConfiguration
        (planWave example_uuids (new_WaveManager 100000) example_spec (batch_mode 4 (Some 5))
           [example_iteration] example_level ''out''))
     \<le> int (length (innovationDimensions example_spec))
   \<and> map assignedFocus
     (agentAssignments (waveConfiguration
        (planWave example_uuids (new_WaveManager 100000) example_spec (batch_mode 4 (Some 5))
           [example_iteration] example_level ''out'')))
   = [Some ''color'', Some ''motion'', Some ''motion'']"
  by code_simp

text \<open>
  C4, as amended. For every call of \<open>planWave\<close>, the assignments of the wave have pairwise
  distinct \<open>innovationFocus\<close> values whenever the pool's dimensions are pairwise distinct
  and the number of different dimensions used by the existing iterations plus the wave
  size is at most the pool size. Without existing iterations this is: pool size at least
  wave size.
\<close>

theorem focus_distinct_within_wave:
  assumes "distinct (innovationDimensions spec)"
    and "int (card (\<Union>it\<in>set existing. set (innovationDimensions_iter it)))
           + calculateWaveSize mode (int (length existing))
         \<le> int (length (innovationDimensions spec))"
  shows "distinct (map assignedFocus
           (agentAssignments (waveConfiguration (planWave uuids this spec mode existing lvl out))))"
proof -
  have "distinct (map (\<lambda>a. innovationFocus (uniqueDirective a))
          (generateAgentAssignments_loop uuids spec (calculateWaveSize mode (int (length existing)))
             existing lvl 0 [] (existingDimensions existing)))"
    using assms by (intro loop_foci_distinct)
      (simp_all add: existingDimensions_distinct existingDimensions_length)
  then show ?thesis
    by (simp add: planWave_fields generateAgentAssignments_def assignedFocus_eq)
qed

text \<open>C4, witness: one dimension used before, two assignments, a pool of three.\<close>

theorem focus_distinct_within_wave_witness:
  "distinct (innovationDimensions example_spec)
   \<and> int (card (\<Union>it\<in>set [example_iteration]. set (innovationDimensions_iter it)))
           + calculateWaveSize (batch_mode 3 (Some 5)) (int (length [example_iteration]))
         \<le> int (length (innovationDimensions example_spec))
   \<and> distinct (map assignedFocus
           (agentAssignments (waveConfiguration
              (planWave example_uuids (new_WaveManager 100000) example_spec (batch_mode 3 (Some 5))
                 [example_iteration] example_level ''out''))))
   \<and> length (agentAssignments (waveConfiguration
              (planWave example_uuids (new_WaveManager 100000) example_spec (batch_mode 3 (Some 5))
                 [example_iteration] example_level ''out''))) = 2"
proof -
  have a: "distinct (innovationDimensions example_spec)"
    by (simp add: example_spec_def)
  have b: "int (card (\<Union>it\<in>set [example_iteration]. set (innovationDimensions_iter it)))
           + calculateWaveSize (batch_mode 3 (Some 5)) (int (length [example_iteration]))
         \<le> int (length (innovationDimensions example_spec))"
    by (simp add: example_spec_def example_iteration_def batch_mode_def calculateWaveSize_def
          batchSize_or_default_def)
  have c: "length (agentAssignments (waveConfiguration
              (planWave example_uuids (new_WaveManager 100000) example_spec (batch_mode 3 (Some 5))
                 [example_iteration] example_level ''out''))) = 2"
    by code_simp
  from a b c focus_distinct_within_wave [OF a b, of example_uuids "new_WaveManager 100000" example_level "''out''"]
  show ?thesis by simp
qed

lemma loop_nothing_to_do:
  "waveSize \<le> i \<Longrightarrow>
   generateAgentAssignments_loop uuids spec waveSize existing lvl i assignments used = assignments"
  by (simp add: generateAgentAssignments_loop.simps)

lemma generateAgentAssignments_loop_length:
  "length (generateAgentAssignments_loop uuids spec waveSize existing lvl i assignments used)
     = length assignments + nat (waveSize - i)"
proof (induction uuids spec waveSize existing lvl i assignments used
        rule: generateAgentAssignments_loop.induct)
  case (1 uuids spec waveSize existing lvl i assignments used)
  show ?case
  proof (cases "i < waveSize")
    case True
    with "1.IH" [OF True] show ?thesis
      by (subst generateAgentAssignments_loop.simps) (simp add: nat_diff_distrib')
  next
    case False
    then show ?thesis by (simp add: generateAgentAssignments_loop.simps)
  qed
qed

text \<open>A planned wave has as many assignments as its size says, none for a size below one,
  and a positive concurrency whenever it has an assignment.\<close>

lemma planned_wave_length:
  "length (agentAssignments (waveConfiguration (planWave uuids this spec mode existing lvl out)))
     = nat (targetIterations (waveConfiguration (planWave uuids this spec mode existing lvl out)))"
  by (simp add: planWave_fields generateAgentAssignments_def generateAgentAssignments_loop_length)

lemma planned_wave_can_run:
  "0 < maxConcurrency (waveConfiguration (planWave uuids this spec mode existing lvl out))
   \<or> agentAssignments (waveConfiguration (planWave uuids this spec mode existing lvl out)) = []"
proof (cases "0 < calculateWaveSize mode (int (length existing))")
  case True
  then show ?thesis by (simp add: planWave_fields)
next
  case False
  then have "generateAgentAssignments uuids spec (calculateWaveSize mode (int (length existing)))
               existing lvl out = []"
    unfolding generateAgentAssignments_def by (intro loop_nothing_to_do) simp
  then show ?thesis by (simp add: planWave_fields)
qed

text \<open>
  C10, counterexample. Count 1 with one existing iteration leaves 0 to do, but with the
  batch size -2 the wave size, and so \<open>targetIterations\<close>, is \<open>min 0 (-2) = -2\<close>.
\<close>

theorem exhausted_batch_counterexample:
  "1 \<le> int (length [example_iteration])
   \<and> targetIterations (waveConfiguration
        (planWave example_uuids (new_WaveManager 100000) example_spec (batch_mode 1 (Some (- 2)))
           [example_iteration] example_level ''out'')) = - 2
   \<and> 1 - int (length [example_iteration]) = 0"
  by (simp add: planWave_fields batch_mode_def calculateWaveSize_def batchSize_or_default_def)

text \<open>
  C10, as amended. For every \<open>BATCH\<close> mode whose numeric count is at most the number of
  existing iterations, \<open>planWave\<close> returns a plan without assignments whose
  \<open>targetIterations\<close> and \<open>maxConcurrency\<close> are both the smaller of count - existingCount
  and the batch size (5 when absent or zero); that is count - existingCount whenever
  the batch size is absent or not below it, in particular whenever it is not negative.
\<close>

theorem exhausted_batch_plans_nothing:
  assumes "c \<le> int (length existing)"
  shows "agentAssignments (waveConfiguration
           (planWave uuids this spec
              \<lparr>type_mode = BATCH, count_mode = Count c, batchSize = b, maxWaves = w\<rparr> existing lvl out)) = []
    \<and> agentAssignments_plan
           (planWave uuids this spec
              \<lparr>type_mode = BATCH, count_mode = Count c, batchSize = b, maxWaves = w\<rparr> existing lvl out) = []
    \<and> targetIterations (waveConfiguration
           (planWave uuids this spec
              \<lparr>type_mode = BATCH, count_mode = Count c, batchSize = b, maxWaves = w\<rparr> existing lvl out))
        = min (c - int (length existing)) (case b of None \<Rightarrow> 5 | Some s \<Rightarrow> if s = 0 then 5 else s)
    \<and> maxConcurrency (waveConfiguration
           (planWave uuids this spec
              \<lparr>type_mode = BATCH, count_mode = Count c, batchSize = b, maxWaves = w\<rparr> existing lvl out))
        = min (c - int (length existing)) (case b of None \<Rightarrow> 5 | Some s \<Rightarrow> if s = 0 then 5 else s)
    \<and> ((b = None \<or> (\<exists>s. b = Some s \<and> c - int (length existing) \<le> s)) \<longrightarrow>
         targetIterations (waveConfiguration
           (planWave uuids this spec
              \<lparr>type_mode = BATCH, count_mode = Count c, batchSize = b, maxWaves = w\<rparr> existing lvl out))
          = c - int (length existing)
         \<and> maxConcurrency (waveConfiguration
           (planWave uuids this spec
              \<lparr>type_mode = BATCH, count_mode = Count c, batchSize = b, maxWaves = w\<rparr> existing lvl out))
          = c - int (length existing))"
proof -
  let ?mode = "\<lparr>type_mode = BATCH, count_mode = Count c, batchSize = b, maxWaves = w\<rparr>"
  let ?d = "case b of None \<Rightarrow> 5 | Some s \<Rightarrow> if s = 0 then 5 else s"
  have size: "calculateWaveSize ?mode (int (length existing)) = min (c - int (length existing)) ?d"
    by (simp add: calculateWaveSize_def batchSize_or_default_def)
  have le: "calculateWaveSize ?mode (int (length existing)) \<le> 0"
    using assms unfolding size by simp
  have none: "generateAgentAssignments uuids spec (calculateWaveSize ?mode (int (length existing)))
                existing lvl out = []"
    unfolding generateAgentAssignments_def using le by (rule loop_nothing_to_do)
  have conc: "min (calculateWaveSize ?mode (int (length existing))) 5
                = calculateWaveSize ?mode (int (length existing))"
    using le by simp
  have eq: "(b = None \<or> (\<exists>s. b = Some s \<and> c - int (length existing) \<le> s)) \<Longrightarrow>
              min (c - int (length existing)) ?d = c - int (length existing)"
    using assms by (auto split: option.splits)
  have t: "targetIterations (waveConfiguration (planWave uuids this spec ?mode existing lvl out))
             = min (c - int (length existing)) ?d"
    by (simp only: planWave_fields size)
  have m: "maxConcurrency (waveConfiguration (planWave uuids this spec ?mode existing lvl out))
             = min (c - int (length existing)) ?d"
    using conc by (simp only: planWave_fields size)
  have a: "agentAssignments (waveConfiguration (planWave uuids this spec ?mode existing lvl out)) = []"
    by (simp only: planWave_fields none)
  have p: "agentAssignments_plan (planWave uuids this spec ?mode existing lvl out) = []"
    by (simp only: planWave_fields none)
  show ?thesis
    unfolding t m a p using eq by simp
qed

text \<open>C10, witness: count 1, batch size 5, one existing iteration.\<close>

theorem exhausted_batch_plans_nothing_witness:
  "1 \<le> int (length [example_iteration])
   \<and> (Some 5 = None \<or> (\<exists>s. Some 5 = Some s \<and> 1 - int (length [example_iteration]) \<le> (s::int)))
   \<and> agentAssignments (waveConfiguration
        (planWave example_uuids (new_WaveManager 100000) example_spec
           \<lparr>type_mode = BATCH, count_mode = Count 1, batchSize = Some 5, maxWaves = None\<rparr>
           [example_iteration] example_level ''out'')) = []
   \<and> targetIterations (waveConfiguration
        (planWave example_uuids (new_WaveManager 100000) example_spec
           \<lparr>type_mode = BATCH, count_mode = Count 1, batchSize = Some 5, maxWaves = None\<rparr>
           [example_iteration] example_level ''out'')) = 0
   \<and> maxConcurrency (waveConfiguration
        (planWave example_uuids (new_WaveManager 100000) example_spec
           \<lparr>type_mode = BATCH, count_mode = Count 1, batchSize = Some 5, maxWaves = None\<rparr>
           [example_iteration] example_level ''out'')) = 0"
proof -
  have h: "1 \<le> int (length [example_iteration])" by simp
  from h exhausted_batch_plans_nothing [OF h, of example_uuids "new_WaveManager 100000" example_spec
      "Some 5" None example_level "''out''"]
  show ?thesis by simp
qed

section \<open>Executing a wave: properties\<close>

lemma slice_forward:
  assumes "0 \<le> i" and "0 < m"
  shows "slice xs i (i + m) = take (nat m) (drop (nat i) xs)"
proof (cases "i + m \<le> int (length xs)")
  case True
  with assms have "nat (i + m - i) = nat m" and "min i (int (length xs)) = i"
    and "min (i + m) (int (length xs)) = i + m" by simp_all
  with assms show ?thesis by (simp add: slice_def Let_def)
next
  case False
  show ?thesis
  proof (cases "i \<le> int (length xs)")
    case True
    with False assms have "length (drop (nat i) xs) \<le> nat m" by simp
    moreover from False True assms have "length (drop (nat i) xs) \<le> nat (int (length xs) - i)"
      by simp
    ultimately show ?thesis using assms False True by (simp add: slice_def Let_def min_def)
  next
    case False
    with assms show ?thesis by (simp add: slice_def Let_def min_def)
  qed
qed

lemma createAgentBatches_loop_done:
  "int (length xs) \<le> i \<Longrightarrow> createAgentBatches_loop xs m i acc = Some acc"
  by (subst createAgentBatches_loop.simps) simp

lemma createAgentBatches_loop_returns:
  assumes "0 < m"
  shows "0 \<le> i \<Longrightarrow>
    \<exists>bs. createAgentBatches_loop xs m i acc = Some (acc @ bs) \<and> concat bs = drop (nat i) xs
          \<and> (\<forall>b\<in>set bs. b \<noteq> [] \<and> int (length b) \<le> m)"
proof (induction "nat (int (length xs) - i)" arbitrary: i acc rule: less_induct)
  case less
  show ?case
  proof (cases "i < int (length xs)")
    case False
    then show ?thesis by (simp add: createAgentBatches_loop_done)
  next
    case True
    let ?b = "take (nat m) (drop (nat i) xs)"
    have sl: "slice xs i (i + m) = ?b" using less.prems assms by (rule slice_forward)
    have smaller: "nat (int (length xs) - (i + m)) < nat (int (length xs) - i)"
      using True assms by simp
    from less.hyps [OF smaller, of "acc @ [?b]"] less.prems assms
    obtain bs where bs: "createAgentBatches_loop xs m (i + m) (acc @ [?b]) = Some ((acc @ [?b]) @ bs)"
      "concat bs = drop (nat (i + m)) xs" "\<forall>b\<in>set bs. b \<noteq> [] \<and> int (length b) \<le> m"
      by auto
    have step: "createAgentBatches_loop xs m i acc = Some (acc @ (?b # bs))"
      using True bs(1) sl by (subst createAgentBatches_loop.simps) simp
    have "nat (i + m) = nat m + nat i" using less.prems assms by (simp add: nat_add_distrib)
    then have cat: "concat (?b # bs) = drop (nat i) xs"
      using bs(2) by (simp add: drop_drop [symmetric] del: drop_drop)
    have "?b \<noteq> []" using True assms less.prems by simp
    moreover have "int (length ?b) \<le> m" using assms by simp
    ultimately have "\<forall>b\<in>set (?b # bs). b \<noteq> [] \<and> int (length b) \<le> m" using bs(3) by simp
    with step cat show ?thesis by blast
  qed
qed

lemma createAgentBatches_loop_stuck_aux:
  assumes "createAgentBatches_loop xs m i acc = Some r"
  shows "\<not> (m \<le> 0 \<and> i < int (length xs))"
proof (rule createAgentBatches_loop.raw_induct
    [where P = "\<lambda>xs m i acc r. \<not> (m \<le> 0 \<and> i < int (length xs))", OF _ assms])
  fix loop :: "'a list \<Rightarrow> int \<Rightarrow> int \<Rightarrow> 'a list list \<Rightarrow> 'a list list option"
    and xs m i acc r
  assume IH: "\<And>a b c d y. loop a b c d = Some y \<Longrightarrow> \<not> (b \<le> 0 \<and> c < int (length a))"
    and eq: "(if i < int (length xs) then loop xs m (i + m) (acc @ [slice xs i (i + m)])
              else Some acc) = Some r"
  show "\<not> (m \<le> 0 \<and> i < int (length xs))"
  proof
    assume h: "m \<le> 0 \<and> i < int (length xs)"
    then have "loop xs m (i + m) (acc @ [slice xs i (i + m)]) = Some r" using eq by simp
    then have "\<not> (m \<le> 0 \<and> i + m < int (length xs))" by (rule IH)
    with h show False by arith
  qed
qed

lemma createAgentBatches_loop_stuck:
  "m \<le> 0 \<Longrightarrow> i < int (length xs) \<Longrightarrow> createAgentBatches_loop xs m i acc = None"
  using createAgentBatches_loop_stuck_aux [of xs m i acc] by (cases "createAgentBatches_loop xs m i acc") auto

lemma createAgentBatches_returns:
  "0 < m \<or> xs = [] \<Longrightarrow>
   \<exists>bs. createAgentBatches xs m = Some bs \<and> concat bs = xs \<and> (\<forall>b\<in>set bs. b \<noteq> [] \<and> int (length b) \<le> m)"
proof (cases "xs = []")
  case True
  then show ?thesis by (simp add: createAgentBatches_def createAgentBatches_loop_done)
next
  case False
  assume "0 < m \<or> xs = []"
  with False have "0 < m" by simp
  from createAgentBatches_loop_returns [OF this, of 0 xs "[]"] show ?thesis
    by (simp add: createAgentBatches_def)
qed


lemma promise_all_fulfilled: "promise_all (map Inr vs) = Inr vs"
  by (induction vs) simp_all

lemma executeAgent_fulfils: "\<exists>r. executeAgent worker assignment wave = Inr r"
  by (simp add: executeAgent_def split: sum.splits prod.splits)

lemma executeAgent_all_fulfil:
  "\<exists>rs. map (\<lambda>a. executeAgent worker a wave) xs = map Inr rs"
proof (induction xs)
  case Nil
  then show ?case by simp
next
  case (Cons x xs)
  then obtain rs where rs: "map (\<lambda>a. executeAgent worker a wave) xs = map Inr rs" by blast
  obtain r where "executeAgent worker x wave = Inr r" using executeAgent_fulfils by blast
  with rs have "map (\<lambda>a. executeAgent worker a wave) (x # xs) = map Inr (r # rs)" by simp
  then show ?case by blast
qed

lemma executeAgent_identity:
  "executeAgent worker a wave = Inr r \<Longrightarrow>
   agentId_res r = agentId a \<and> iterationNumber_res r = iterationNumber a"
  by (auto simp: executeAgent_def split: sum.splits prod.splits)

lemma executeAgent_failure:
  "outcome (worker a) = Inl err \<Longrightarrow> executeAgent worker a wave = Inr r \<Longrightarrow>
   success r = False \<and> errorMessage r = Some (''Agent execution failed: '' @ err)"
  by (auto simp: executeAgent_def)

lemma executeAgent_success:
  "outcome (worker a) = Inr q \<Longrightarrow> executeAgent worker a wave = Inr r \<Longrightarrow>
   success r = True \<and> errorMessage r = None"
  by (auto simp: executeAgent_def split: prod.splits)

lemma executeAgent_own_worker:
  assumes "worker' a = worker a"
  shows "executeAgent worker' a wave = executeAgent worker a wave"
  unfolding executeAgent_def assms ..

lemma executeBatches_fulfilled:
  "map (\<lambda>a. exec a wave) (concat bs) = map Inr rs \<Longrightarrow>
   \<exists>rbs. map (\<lambda>b. executeBatch exec b wave) bs = map Inr rbs
        \<and> map (map Inr) rbs = map (map (\<lambda>a. exec a wave)) bs
        \<and> concat rbs = rs
        \<and> executeBatches exec bs wave acc = Inr (acc @ rs)"
proof (induction bs arbitrary: rs acc)
  case Nil
  then show ?case by simp
next
  case (Cons b bs)
  from Cons.prems have "map (\<lambda>a. exec a wave) b @ map (\<lambda>a. exec a wave) (concat bs) = map Inr rs"
    by simp
  then obtain us vs where rs: "rs = us @ vs" and us: "map (\<lambda>a. exec a wave) b = map Inr us"
    and vs: "map (\<lambda>a. exec a wave) (concat bs) = map Inr vs"
    by (auto simp: append_eq_map_conv)
  from Cons.IH [OF vs, of "acc @ us"] obtain rbs where
    rbs: "map (\<lambda>b. executeBatch exec b wave) bs = map Inr rbs"
      "map (map Inr) rbs = map (map (\<lambda>a. exec a wave)) bs" "concat rbs = vs"
      "executeBatches exec bs wave (acc @ us) = Inr ((acc @ us) @ vs)"
    by blast
  have b: "executeBatch exec b wave = Inr us"
    by (simp add: executeBatch_def us promise_all_fulfilled)
  have "map (\<lambda>b. executeBatch exec b wave) (b # bs) = map Inr (us # rbs)"
    using b rbs(1) by simp
  moreover have "map (map Inr) (us # rbs) = map (map (\<lambda>a. exec a wave)) (b # bs)"
    using us rbs(2) by simp
  moreover have "concat (us # rbs) = rs" using rs rbs(3) by simp
  moreover have "executeBatches exec (b # bs) wave acc = Inr (acc @ rs)"
    using b rbs(4) rs by simp
  ultimately show ?case by blast
qed

lemma executeWave_with_fulfilled:
  assumes "createAgentBatches (agentAssignments wave) (maxConcurrency wave) = Some bs"
    and "executeBatches exec bs (started tStart wave) [] = Inr res"
  shows "executeWave_with exec tStart tEnd wave this =
           Some (Inr res,
                 (started tStart wave)\<lparr>status := COMPLETED, endTime := Some tEnd, results := Some res\<rparr>,
                 releaseContextUsage (id_wave wave)
                   (updateContextUsage (id_wave wave) (js_of_int (contextBudget wave))
                      (this\<lparr>activeWaves := AList.update (id_wave wave) (started tStart wave) (activeWaves this)\<rparr>)))"
  using assms by (simp add: executeWave_with_def started_def Let_def)

lemma executeWave_with_rejected:
  assumes "createAgentBatches (agentAssignments wave) (maxConcurrency wave) = Some bs"
    and "executeBatches exec bs (started tStart wave) [] = Inl r"
  shows "executeWave_with exec tStart tEnd wave this =
           Some (Inl (''Wave execution failed: '' @ reason r),
                 (started tStart wave)\<lparr>status := FAILED, endTime := Some tEnd\<rparr>,
                 releaseContextUsage (id_wave wave)
                   (updateContextUsage (id_wave wave) (js_of_int (contextBudget wave))
                      (this\<lparr>activeWaves := AList.update (id_wave wave) (started tStart wave) (activeWaves this)\<rparr>)))"
  using assms by (simp add: executeWave_with_def started_def Let_def)

lemma executeWave_with_diverges:
  "createAgentBatches (agentAssignments wave) (maxConcurrency wave) = None \<Longrightarrow>
   executeWave_with exec tStart tEnd wave this = None"
  by (simp add: executeWave_with_def Let_def)

text \<open>What a run of \<open>executeWave\<close> with positive concurrency (or nothing to run) yields.\<close>

lemma executeWave_run:
  assumes "0 < maxConcurrency wave \<or> agentAssignments wave = []"
  shows "\<exists>bs rbs res.
      createAgentBatches (agentAssignments wave) (maxConcurrency wave) = Some bs
    \<and> concat bs = agentAssignments wave
    \<and> map (\<lambda>b. executeBatch (executeAgent worker) b (started tStart wave)) bs = map Inr rbs
    \<and> map (map Inr) rbs = map (map (\<lambda>a. executeAgent worker a (started tStart wave))) bs
    \<and> concat rbs = res
    \<and> map Inr res = map (\<lambda>a. executeAgent worker a (started tStart wave)) (agentAssignments wave)
    \<and> executeWave worker tStart tEnd wave this =
        Some (Inr res,
              (started tStart wave)\<lparr>status := COMPLETED, endTime := Some tEnd, results := Some res\<rparr>,
              releaseContextUsage (id_wave wave)
                (updateContextUsage (id_wave wave) (js_of_int (contextBudget wave))
                   (this\<lparr>activeWaves := AList.update (id_wave wave) (started tStart wave) (activeWaves this)\<rparr>)))"
proof -
  from createAgentBatches_returns [OF assms] obtain bs where
    bs: "createAgentBatches (agentAssignments wave) (maxConcurrency wave) = Some bs"
      "concat bs = agentAssignments wave" by blast
  from executeAgent_all_fulfil obtain res where
    res: "map (\<lambda>a. executeAgent worker a (started tStart wave)) (agentAssignments wave) = map Inr res"
    by blast
  then have "map (\<lambda>a. executeAgent worker a (started tStart wave)) (concat bs) = map Inr res"
    by (simp only: bs(2))
  from executeBatches_fulfilled [where exec = "executeAgent worker" and wave = "started tStart wave"
      and bs = bs and rs = res and acc = "[]", OF this] obtain rbs where
    rbs: "map (\<lambda>b. executeBatch (executeAgent worker) b (started tStart wave)) bs = map Inr rbs"
      "map (map Inr) rbs = map (map (\<lambda>a. executeAgent worker a (started tStart wave))) bs"
      "concat rbs = res"
      "executeBatches (executeAgent worker) bs (started tStart wave) [] = Inr res"
    by auto
  from executeWave_with_fulfilled [OF bs(1) rbs(4)] bs rbs res show ?thesis
    unfolding executeWave_def by (intro exI conjI) (assumption | rule sym, assumption)+
qed

lemma example_wave_fields:
  "length (agentAssignments example_wave) = 3" "maxConcurrency example_wave = 2"
  "length (agentAssignments stuck_wave) = 3" "maxConcurrency stuck_wave = 0"
  "results example_wave = None" "status example_wave = PLANNED"
  by code_simp+

lemma nth_of_fulfilled:
  "map Inr rs = map f xs \<Longrightarrow> i < length xs \<Longrightarrow> f (xs ! i) = Inr (rs ! i)"
  by (metis length_map nth_map)

text \<open>
  C7, counterexample. With three assignments and a \<open>maxConcurrency\<close> of 0 the index of
  \<open>createAgentBatches\<close> never advances, and \<open>executeWave\<close> returns nothing.
\<close>

theorem stuck_wave_counterexample:
  "agentAssignments stuck_wave \<noteq> [] \<and> maxConcurrency stuck_wave = 0
   \<and> executeWave steady_worker 0 5000 stuck_wave (new_WaveManager 100000) = None"
proof -
  have ne: "agentAssignments stuck_wave \<noteq> []"
    using example_wave_fields(3) by auto
  then have "0 < int (length (agentAssignments stuck_wave))" by simp
  then have "createAgentBatches (agentAssignments stuck_wave) (maxConcurrency stuck_wave) = None"
    unfolding createAgentBatches_def
    by (intro createAgentBatches_loop_stuck) (simp_all add: example_wave_fields)
  then have "executeWave steady_worker 0 5000 stuck_wave (new_WaveManager 100000) = None"
    unfolding executeWave_def by (rule executeWave_with_diverges)
  with ne show ?thesis by (simp add: example_wave_fields)
qed

text \<open>
  C7, as amended. For every wave whose \<open>maxConcurrency\<close> is positive or that has no
  assignments, \<open>executeWave\<close> returns: the batches concatenate to the assignments, every
  batch fulfils with the results of its assignments in their order, the returned list is
  the concatenation of the batch results in batch order, it is stored in the wave, it
  has one entry per assignment, and the i-th entry is what \<open>executeAgent\<close> yields for the
  i-th assignment, with its agent id and iteration number.
\<close>

theorem results_follow_assignments:
  assumes "0 < maxConcurrency wave \<or> agentAssignments wave = []"
  shows "\<exists>batches batchResults res wave' this'.
      createAgentBatches (agentAssignments wave) (maxConcurrency wave) = Some batches
    \<and> concat batches = agentAssignments wave
    \<and> map (\<lambda>b. executeBatch (executeAgent worker) b (started tStart wave)) batches
        = map Inr batchResults
    \<and> map (map Inr) batchResults
        = map (map (\<lambda>a. executeAgent worker a (started tStart wave))) batches
    \<and> res = concat batchResults
    \<and> executeWave worker tStart tEnd wave this = Some (Inr res, wave', this')
    \<and> status wave' = COMPLETED
    \<and> results wave' = Some res
    \<and> length res = length (agentAssignments wave)
    \<and> (\<forall>i<length (agentAssignments wave).
          executeAgent worker (agentAssignments wave ! i) (started tStart wave) = Inr (res ! i)
        \<and> agentId_res (res ! i) = agentId (agentAssignments wave ! i)
        \<and> iterationNumber_res (res ! i) = iterationNumber (agentAssignments wave ! i))"
proof -
  from executeWave_run [OF assms, of worker tStart tEnd this] obtain bs rbs res where
    run: "createAgentBatches (agentAssignments wave) (maxConcurrency wave) = Some bs"
      "concat bs = agentAssignments wave"
      "map (\<lambda>b. executeBatch (executeAgent worker) b (started tStart wave)) bs = map Inr rbs"
      "map (map Inr) rbs = map (map (\<lambda>a. executeAgent worker a (started tStart wave))) bs"
      "concat rbs = res"
      "map Inr res = map (\<lambda>a. executeAgent worker a (started tStart wave)) (agentAssignments wave)"
    and ex: "executeWave worker tStart tEnd wave this =
        Some (Inr res,
              (started tStart wave)\<lparr>status := COMPLETED, endTime := Some tEnd, results := Some res\<rparr>,
              releaseContextUsage (id_wave wave)
                (updateContextUsage (id_wave wave) (js_of_int (contextBudget wave))
                   (this\<lparr>activeWaves := AList.update (id_wave wave) (started tStart wave) (activeWaves this)\<rparr>)))"
    by blast
  have len: "length res = length (agentAssignments wave)"
    using run(6) by (metis length_map)
  have nth: "executeAgent worker (agentAssignments wave ! i) (started tStart wave) = Inr (res ! i)"
    if "i < length (agentAssignments wave)" for i
    using run(6) that by (rule nth_of_fulfilled)
  have each: "\<forall>i<length (agentAssignments wave).
          executeAgent worker (agentAssignments wave ! i) (started tStart wave) = Inr (res ! i)
        \<and> agentId_res (res ! i) = agentId (agentAssignments wave ! i)
        \<and> iterationNumber_res (res ! i) = iterationNumber (agentAssignments wave ! i)"
    using nth executeAgent_identity by blast
  let ?wave' = "(started tStart wave)\<lparr>status := COMPLETED, endTime := Some tEnd, results := Some res\<rparr>"
  have "status ?wave' = COMPLETED" and "results ?wave' = Some res" by simp_all
  with run(1-4) run(5) [symmetric] ex len each show ?thesis by blast
qed

text \<open>C7, witness: three assignments run two at a time.\<close>

theorem results_follow_assignments_witness:
  "(0 < maxConcurrency example_wave \<or> agentAssignments example_wave = [])
   \<and> (\<exists>res wave' this'.
        executeWave steady_worker 0 5000 example_wave (new_WaveManager 100000)
          = Some (Inr res, wave', this')
        \<and> length res = 3
        \<and> iterationNumber_res (res ! 2) = iterationNumber (agentAssignments example_wave ! 2))"
proof -
  have h: "0 < maxConcurrency example_wave \<or> agentAssignments example_wave = []"
    by (simp add: example_wave_fields)
  from results_follow_assignments [OF h, of steady_worker 0 5000 "new_WaveManager 100000"]
  obtain res wave' this' where
    "executeWave steady_worker 0 5000 example_wave (new_WaveManager 100000)
       = Some (Inr res, wave', this')"
    "length res = length (agentAssignments example_wave)"
    "\<forall>i<length (agentAssignments example_wave).
        executeAgent steady_worker (agentAssignments example_wave ! i) (started 0 example_wave) = Inr (res ! i)
        \<and> agentId_res (res ! i) = agentId (agentAssignments example_wave ! i)
        \<and> iterationNumber_res (res ! i) = iterationNumber (agentAssignments example_wave ! i)"
    by blast
  with h show ?thesis by (auto simp: example_wave_fields)
qed

text \<open>
  C9. Take a wave with a positive \<open>maxConcurrency\<close>, so that its workers get dispatched,
  in which the worker of assignment i throws. Then \<open>executeWave\<close> returns normally, the wave is
  \<open>COMPLETED\<close> and holds the returned results, one per assignment; result i has
  \<open>success = false\<close> and the error message built from what was thrown; every result is
  what \<open>executeAgent\<close> yields for its own assignment, so a worker that completes gives
  \<open>success = true\<close>; and under any other behaviour of the workers the wave still returns,
  with the same result for each assignment whose own worker behaves the same.
\<close>

theorem worker_failure_is_absorbed:
  assumes "0 < maxConcurrency wave"
    and "i < length (agentAssignments wave)"
    and "outcome (worker (agentAssignments wave ! i)) = Inl err"
  shows "\<exists>res wave' this'.
      executeWave worker tStart tEnd wave this = Some (Inr res, wave', this')
    \<and> status wave' = COMPLETED \<and> results wave' = Some res
    \<and> length res = length (agentAssignments wave)
    \<and> success (res ! i) = False
    \<and> errorMessage (res ! i) = Some (''Agent execution failed: '' @ err)
    \<and> (\<forall>j<length (agentAssignments wave).
          executeAgent worker (agentAssignments wave ! j) (started tStart wave) = Inr (res ! j))
    \<and> (\<forall>j<length (agentAssignments wave). \<forall>q.
          outcome (worker (agentAssignments wave ! j)) = Inr q \<longrightarrow> success (res ! j) = True)
    \<and> (\<forall>worker'. \<exists>res' wave'' this''.
          executeWave worker' tStart tEnd wave this = Some (Inr res', wave'', this'')
          \<and> (\<forall>j<length (agentAssignments wave).
                worker' (agentAssignments wave ! j) = worker (agentAssignments wave ! j)
                \<longrightarrow> res' ! j = res ! j))"
proof -
  from assms(1) have ok: "0 < maxConcurrency wave \<or> agentAssignments wave = []"
    by simp
  have run: "\<exists>res wave' this'.
      executeWave w tStart tEnd wave this = Some (Inr res, wave', this')
    \<and> status wave' = COMPLETED \<and> results wave' = Some res
    \<and> length res = length (agentAssignments wave)
    \<and> (\<forall>j<length (agentAssignments wave).
          executeAgent w (agentAssignments wave ! j) (started tStart wave) = Inr (res ! j))" for w
  proof -
    from executeWave_run [OF ok, of w tStart tEnd this] obtain res where
      m: "map Inr res = map (\<lambda>a. executeAgent w a (started tStart wave)) (agentAssignments wave)"
      and ex: "executeWave w tStart tEnd wave this =
        Some (Inr res,
              (started tStart wave)\<lparr>status := COMPLETED, endTime := Some tEnd, results := Some res\<rparr>,
              releaseContextUsage (id_wave wave)
                (updateContextUsage (id_wave wave) (js_of_int (contextBudget wave))
                   (this\<lparr>activeWaves := AList.update (id_wave wave) (started tStart wave) (activeWaves this)\<rparr>)))"
      by blast
    have len: "length res = length (agentAssignments wave)" using m by (metis length_map)
    have "executeAgent w (agentAssignments wave ! j) (started tStart wave) = Inr (res ! j)"
      if "j < length (agentAssignments wave)" for j
      using m that by (rule nth_of_fulfilled)
    with ex len show ?thesis by simp
  qed
  from run [of worker] obtain res wave' this' where
    r: "executeWave worker tStart tEnd wave this = Some (Inr res, wave', this')"
      "status wave' = COMPLETED" "results wave' = Some res"
      "length res = length (agentAssignments wave)"
      "\<forall>j<length (agentAssignments wave).
          executeAgent worker (agentAssignments wave ! j) (started tStart wave) = Inr (res ! j)"
    by blast
  from r(5) assms(2) have "executeAgent worker (agentAssignments wave ! i) (started tStart wave) = Inr (res ! i)"
    by simp
  from executeAgent_failure [OF assms(3) this]
  have failed: "success (res ! i) = False"
    "errorMessage (res ! i) = Some (''Agent execution failed: '' @ err)" by simp_all
  have others: "\<forall>j<length (agentAssignments wave). \<forall>q.
          outcome (worker (agentAssignments wave ! j)) = Inr q \<longrightarrow> success (res ! j) = True"
    using r(5) executeAgent_success by blast
  have indep: "\<exists>res' wave'' this''.
          executeWave worker' tStart tEnd wave this = Some (Inr res', wave'', this'')
          \<and> (\<forall>j<length (agentAssignments wave).
                worker' (agentAssignments wave ! j) = worker (agentAssignments wave ! j)
                \<longrightarrow> res' ! j = res ! j)" for worker'
  proof -
    from run [of worker'] obtain res' wave'' this'' where
      r': "executeWave worker' tStart tEnd wave this = Some (Inr res', wave'', this'')"
        "\<forall>j<length (agentAssignments wave).
          executeAgent worker' (agentAssignments wave ! j) (started tStart wave) = Inr (res' ! j)"
      by blast
    have "res' ! j = res ! j"
      if "j < length (agentAssignments wave)"
        and "worker' (agentAssignments wave ! j) = worker (agentAssignments wave ! j)" for j
    proof -
      from that(1) r'(2) have "Inr (res' ! j) = executeAgent worker' (agentAssignments wave ! j) (started tStart wave)"
        by simp
      also have "\<dots> = executeAgent worker (agentAssignments wave ! j) (started tStart wave)"
        using that(2) by (rule executeAgent_own_worker)
      also have "\<dots> = Inr (res ! j)" using that(1) r(5) by simp
      finally show ?thesis by simp
    qed
    with r'(1) show ?thesis by blast
  qed
  from r(1-4) failed r(5) others indep show ?thesis by blast
qed

text \<open>C9, witness: the worker of the second of three assignments throws.\<close>

theorem worker_failure_is_absorbed_witness:
  "0 < maxConcurrency example_wave
   \<and> 1 < length (agentAssignments example_wave)
   \<and> outcome (flaky_worker (agentAssignments example_wave ! 1)) = Inl ''Error: worker timed out''
   \<and> (\<exists>res wave' this'.
        executeWave flaky_worker 0 5000 example_wave (new_WaveManager 100000)
          = Some (Inr res, wave', this')
        \<and> status wave' = COMPLETED \<and> length res = 3
        \<and> success (res ! 1) = False
        \<and> errorMessage (res ! 1) = Some ''Agent execution failed: Error: worker timed out'')"
proof -
  have a: "0 < maxConcurrency example_wave" by (simp add: example_wave_fields)
  have b: "1 < length (agentAssignments example_wave)" by (simp add: example_wave_fields)
  have c: "outcome (flaky_worker (agentAssignments example_wave ! 1)) = Inl ''Error: worker timed out''"
    by code_simp
  from worker_failure_is_absorbed [where wave = example_wave and i = 1 and worker = flaky_worker
      and err = "''Error: worker timed out''" and tStart = 0 and tEnd = 5000
      and this = "new_WaveManager 100000", OF a b c]
  obtain res wave' this' where
    "executeWave flaky_worker 0 5000 example_wave (new_WaveManager 100000)
          = Some (Inr res, wave', this')"
    "status wave' = COMPLETED" "length res = length (agentAssignments example_wave)"
    "success (res ! 1) = False"
    "errorMessage (res ! 1) = Some (''Agent execution failed: '' @ ''Error: worker timed out'')"
    by blast
  with a b c show ?thesis by (auto simp: example_wave_fields)
qed



end
